theory Spec2Isabelle
  imports Main "HOL-Library.AList" "HOL-Library.Monad_Syntax"
begin

section \<open>Naming engine (naming utilities of package golang)\<close>

text \<open>
  Go strings are byte sequences; they are modelled as \<open>string\<close> (a list of 8-bit
  characters).  \<open>strings.ToUpper\<close> and \<open>strings.ToLower\<close> are modelled on ASCII: the 26
  letters are mapped, every other byte is left alone.  On ASCII input this is what Go computes;
  identifiers outside ASCII are not covered by the model.
\<close>

definition asciiLower :: string where
  "asciiLower = ''abcdefghijklmnopqrstuvwxyz''"

definition asciiUpper :: string where
  "asciiUpper = ''ABCDEFGHIJKLMNOPQRSTUVWXYZ''"

definition isUpperAZ :: "char \<Rightarrow> bool" where
  "isUpperAZ c = (c \<in> set asciiUpper)"

definition toUpperByte :: "char \<Rightarrow> char" where
  "toUpperByte c = (case map_of (zip asciiLower asciiUpper) c of Some u \<Rightarrow> u | None \<Rightarrow> c)"

definition toLowerByte :: "char \<Rightarrow> char" where
  "toLowerByte c = (case map_of (zip asciiUpper asciiLower) c of Some l \<Rightarrow> l | None \<Rightarrow> c)"

definition ToUpper :: "string \<Rightarrow> string" where
  "ToUpper s = map toUpperByte s"

definition ToLower :: "string \<Rightarrow> string" where
  "ToLower s = map toLowerByte s"

text \<open>\<open>strings.Split(s, "_")\<close> and \<open>strings.Join(elems, sep)\<close>.\<close>

fun Split :: "string \<Rightarrow> string list" where
  "Split [] = [[]]"
| "Split (c # cs) =
     (if c = CHR ''_'' then [] # Split cs
      else (case Split cs of [] \<Rightarrow> [[c]] | p # ps \<Rightarrow> (c # p) # ps))"

fun Join :: "string list \<Rightarrow> string \<Rightarrow> string" where
  "Join [] sep = []"
| "Join [p] sep = p"
| "Join (p # q # ps) sep = p @ sep @ Join (q # ps) sep"

definition commonInitialisms :: "string list" where
  "commonInitialisms =
     [''ACL'', ''API'', ''ASCII'', ''CPU'', ''CSS'', ''DNS'', ''EOF'', ''GUID'', ''HTML'',
      ''HTTP'', ''HTTPS'', ''ID'', ''IP'', ''JSON'', ''LHS'', ''QPS'', ''RAM'', ''RHS'',
      ''RPC'', ''SLA'', ''SMTP'', ''SQL'', ''SSH'', ''TCP'', ''TLS'', ''TTL'', ''UDP'',
      ''UI'', ''UID'', ''UUID'', ''URI'', ''URL'', ''UTF8'', ''VM'', ''XML'', ''XMPP'',
      ''XSRF'', ''XSS'']"

text \<open>
  \<open>namingCamelPattern.ReplaceAllStringFunc(s, func(x) { return x[:1] + "_" + x[1:] })\<close> for
  the pattern \<open>[^A-Z][A-Z]+\<close>: scanning from the left, the first character that is not an
  upper-case letter and is followed by one starts a match, which takes the whole run of upper-case
  letters after it; the scan goes on behind the match.
\<close>

function replaceAllCamel :: "string \<Rightarrow> string" where
  "replaceAllCamel [] = []"
| "replaceAllCamel [c] = [c]"
| "replaceAllCamel (c # d # cs) =
     (if \<not> isUpperAZ c \<and> isUpperAZ d
      then c # CHR ''_'' # takeWhile isUpperAZ (d # cs) @ replaceAllCamel (dropWhile isUpperAZ (d # cs))
      else c # replaceAllCamel (d # cs))"
  by pat_completeness auto
termination
  by (relation "measure length") (auto simp: less_Suc_eq_le intro: le_SucI length_dropWhile_le)

definition PascalToSnakeCase :: "string \<Rightarrow> string" where
  "PascalToSnakeCase s = (if s = [] then s else ToLower (replaceAllCamel s))"

definition pascalPart :: "string \<Rightarrow> string" where
  "pascalPart part =
     (if part = [] then []
      else (let upperPart = ToUpper part
            in if upperPart \<in> set commonInitialisms then upperPart
               else ToUpper (take 1 part) @ ToLower (drop 1 part)))"

definition ToPascalCaseWithInitialisms :: "string \<Rightarrow> string" where
  "ToPascalCaseWithInitialisms s =
     (if s = [] then s
      else (let snakeCase = (if CHR ''_'' \<in> set s then s else PascalToSnakeCase s);
                parts = Split snakeCase
            in concat (map pascalPart parts)))"

text \<open>
  \<open>inflectCasePreserving\<close>; the inflection function (\<open>flect.Pluralize\<close> or
  \<open>flect.Singularize\<close>, an external library) is its parameter, as in the source.
\<close>

definition inflectCasePreserving :: "string \<Rightarrow> (string \<Rightarrow> string) \<Rightarrow> string" where
  "inflectCasePreserving word inflectFunc =
     (if word = [] then word
      else if isUpperAZ (hd word) then
        (let snakeCase = (if CHR ''_'' \<in> set word then word else PascalToSnakeCase word);
             parts = Split snakeCase
         in if length parts > 1
            then ToPascalCaseWithInitialisms (Join (butlast parts @ [inflectFunc (last parts)]) ''_'')
            else ToPascalCaseWithInitialisms (inflectFunc (ToLower word)))
      else inflectFunc word)"

section \<open>Configuration (package opts)\<close>

datatype NestedGroupConfig = NestedGroupConfig
  (G_FieldGroupBy: string)
  (G_FieldOut: string)
  (G_StructIn: string)
  (G_StructOut: string)
  (G_IsSlice: "bool option")
  (G_IsPointer: "bool option")
  (G_IsComposite: "bool option")
  (G_Group: "NestedGroupConfig list")

text \<open>
  The pointer fields \<open>*bool\<close> are options: \<open>None\<close> is Go's \<open>nil\<close>.  The \<open>Match\<close> rules of a
  node are only copied into the output and are left out.
\<close>

definition GetIsSlice :: "NestedGroupConfig \<Rightarrow> bool" where
  "GetIsSlice n = (G_IsSlice n = None \<or> G_IsSlice n = Some True)"

definition GetIsPointer :: "NestedGroupConfig \<Rightarrow> bool" where
  "GetIsPointer n = (G_IsPointer n = None \<or> G_IsPointer n = Some True)"

definition GetIsComposite :: "NestedGroupConfig \<Rightarrow> bool" where
  "GetIsComposite n = (G_IsComposite n = None \<or> G_IsComposite n = Some True)"

record NestedCompositeConfig =
  C_Name :: string
  C_StructRootIn :: string
  C_Group :: "NestedGroupConfig list"

record NestedQueryConfig =
  QC_Query :: string
  QC_FieldGroupBy :: string
  QC_StructRoot :: string
  QC_Group :: "NestedGroupConfig list"
  QC_IsComposite :: "bool option"

record NestedConfig =
  Composites :: "NestedCompositeConfig list"
  Queries :: "NestedQueryConfig list"

text \<open>
  \<open>populateNestedConfigItemWithDefaultValues\<close> fills in the defaults of one node; it does not
  descend into the node's own \<open>Group\<close>.  \<open>populateNestedConfigWithDefaultValues\<close> applies it to
  the nodes directly below every query and every composite; \<open>options.Nested\<close> may be \<open>nil\<close>.
\<close>

definition populateNestedConfigItemWithDefaultValues :: "NestedGroupConfig \<Rightarrow> NestedGroupConfig" where
  "populateNestedConfigItemWithDefaultValues config =
     (let structOut = (if G_StructOut config = [] then G_StructIn config else G_StructOut config);
          isComposite = (case G_IsComposite config of None \<Rightarrow> False | Some v \<Rightarrow> v);
          fieldGroupBy = (if G_FieldGroupBy config = [] then ''ID'' else G_FieldGroupBy config);
          isSlice = (case G_IsSlice config of None \<Rightarrow> True | Some v \<Rightarrow> v);
          isPointer = (case G_IsPointer config of None \<Rightarrow> True | Some v \<Rightarrow> v)
      in NestedGroupConfig fieldGroupBy (G_FieldOut config) (G_StructIn config) structOut
           (Some isSlice) (Some isPointer) (Some isComposite) (G_Group config))"

definition populateNestedConfigWithDefaultValues :: "NestedConfig option \<Rightarrow> NestedConfig option" where
  "populateNestedConfigWithDefaultValues nestedOpt =
     (case nestedOpt of
        None \<Rightarrow> None
      | Some nc \<Rightarrow>
          Some \<lparr>Composites =
                  map (\<lambda>c. c\<lparr>C_Group := map populateNestedConfigItemWithDefaultValues (C_Group c)\<rparr>)
                    (Composites nc),
                Queries =
                  map (\<lambda>q. q\<lparr>QC_Group := map populateNestedConfigItemWithDefaultValues (QC_Group q)\<rparr>)
                    (Queries nc)\<rparr>)"

section \<open>Catalog and errors\<close>

text \<open>
  The catalog types \<open>Field\<close>, \<open>Struct\<close> and \<open>Query\<close> with the fields the nesting code reads.
  \<open>Q_RetStruct\<close> is \<open>query.Ret.Struct\<close>, a pointer that may be \<open>nil\<close>; the model keeps
  the row struct's field list.
\<close>

record Field =
  F_Name :: string
  F_DBName :: string
  F_Type :: string
  F_Tags :: "(string \<times> string) list"

record Struct =
  S_Name :: string
  S_Fields :: "Field list"

record Query =
  Q_MethodName :: string
  Q_SourceName :: string
  Q_RetStruct :: "Field list option"

record RowGetterInterfaceMethod =
  MethodName :: string
  ReturnType :: string
  M_StructIn :: string

text \<open>
  One constructor per \<open>fmt.Errorf\<close> of the nesting code, carrying the values the message is
  formatted from; the wrapping errors (\<open>%w\<close>) carry the wrapped error.  A nil-pointer
  dereference is a run-time panic of the generator.
\<close>

datatype error =
    CompositeNotFoundDirectFields string
  | CompositeNotFoundResolving string
  | QueryNotFound string
  | RootCompositeFieldsMissing string "string list" string string
  | NestedCompositeFieldsMissing string string "string list" string string
  | InterfaceValidationFailed string string string "RowGetterInterfaceMethod list"
  | ValidationFailedForStruct string error
  | ValidationFailedForQuery string error
  | FailedToGenerateNestedFunction string error
  | FailedToGenerateWrapperFunction string error
  | NilPointerDereference

section \<open>Composite registry (nested\_composites.go)\<close>

text \<open>
  \<open>NestedFieldToCompositeNameMap\<close> is a Go map; it is kept as an association list with one
  entry per key (\<open>AList.update\<close> is the map assignment).  Go iterates a map in an unspecified
  order; the model iterates in the order of the list.
\<close>

record CompositeStructData =
  Config :: NestedCompositeConfig
  DirectNestedFields :: "string list"
  NestedFieldToCompositeNameMap :: "(string \<times> string) list"
  EntityFieldsToExclude :: "string list"
  IsStructAlreadyGenerated :: bool

type_synonym registry = "string \<rightharpoonup> CompositeStructData"

text \<open>
  A loop over a list whose body may fail or may not return: the state is threaded through,
  the first error ends the loop, \<open>None\<close> is a body that does not return.
\<close>

fun forEachM :: "'a list \<Rightarrow> ('a \<Rightarrow> 's \<Rightarrow> (error + 's) option) \<Rightarrow> 's \<Rightarrow> (error + 's) option" where
  "forEachM [] body s = Some (Inr s)"
| "forEachM (x # xs) body s =
     Option.bind (body x s)
       (\<lambda>r. case r of Inl e \<Rightarrow> Some (Inl e) | Inr s' \<Rightarrow> forEachM xs body s')"

lemma forEachM_mono [partial_function_mono]:
  assumes "\<And>x s. mono_option (\<lambda>f. body f x s)"
  shows "mono_option (\<lambda>f. forEachM xs (body f) s)"
  using assms
proof (induction xs arbitrary: s)
  case Nil
  then show ?case by (simp add: option.const_mono)
next
  case (Cons a xs)
  have inner: "mono_option (\<lambda>f. case r of Inl e \<Rightarrow> Some (Inl e) | Inr s' \<Rightarrow> forEachM xs (body f) s')" for r
    by (cases r) (simp_all add: option.const_mono Cons.IH Cons.prems)
  show ?case
    by (simp, rule bind_mono, rule Cons.prems, rule inner)
qed

text \<open>
  \<open>resolveAllTreeCompositeFields\<close>: the direct nested fields of the composite, then, for every
  composite it references, the fields resolved for that one.  The recursion follows the
  references with no record of the path, so the function is partial: \<open>None\<close> is a call that
  does not return.
\<close>

partial_function (option) resolveAllTreeCompositeFields ::
  "registry \<Rightarrow> string \<Rightarrow> (error + string list) option" where
  "resolveAllTreeCompositeFields reg compositeName =
     (case reg compositeName of
        None \<Rightarrow> Some (Inl (CompositeNotFoundDirectFields compositeName))
      | Some compositeInfo \<Rightarrow>
          forEachM (map snd (NestedFieldToCompositeNameMap compositeInfo))
            (\<lambda>nestedCompositeName entityFields.
               Option.bind (resolveAllTreeCompositeFields reg nestedCompositeName)
                 (\<lambda>r. case r of
                         Inl err \<Rightarrow> Some (Inl err)
                       | Inr allNestedCompositeFields \<Rightarrow>
                           Some (Inr (entityFields @ allNestedCompositeFields))))
            (DirectNestedFields compositeInfo))"

definition registerCompositeStructData ::
  "registry \<Rightarrow> NestedCompositeConfig \<Rightarrow> string list \<Rightarrow> (string \<times> string) list \<Rightarrow> registry" where
  "registerCompositeStructData reg config nestedFields nestedFieldToCompositeNameMap =
     reg(C_Name config \<mapsto>
       \<lparr>Config = config,
        DirectNestedFields = nestedFields,
        NestedFieldToCompositeNameMap = nestedFieldToCompositeNameMap,
        EntityFieldsToExclude = [],
        IsStructAlreadyGenerated = False\<rparr>)"

text \<open>Pass 1 of \<open>buildCompositeStructRegistry\<close>, for one composite and for all of them.\<close>

definition registerComposite :: "registry \<Rightarrow> NestedCompositeConfig \<Rightarrow> registry" where
  "registerComposite reg composite =
     registerCompositeStructData reg composite
       (map G_StructIn (C_Group composite))
       (fold (\<lambda>childNestedItem m.
                if G_IsComposite childNestedItem = Some True
                then AList.update (G_StructIn childNestedItem) (G_StructOut childNestedItem) m
                else m)
          (C_Group composite) [])"

text \<open>Pass 2, for one composite.\<close>

definition resolveComposite ::
  "NestedCompositeConfig \<Rightarrow> registry \<Rightarrow> (error + registry) option" where
  "resolveComposite composite reg =
     Option.bind (resolveAllTreeCompositeFields reg (C_Name composite))
       (\<lambda>r. case r of
               Inl err \<Rightarrow> Some (Inl err)
             | Inr resolved \<Rightarrow>
                 (case reg (C_Name composite) of
                    None \<Rightarrow> Some (Inl (CompositeNotFoundResolving (C_Name composite)))
                  | Some compositeStruct \<Rightarrow>
                      Some (Inr (reg(C_Name composite \<mapsto>
                                   compositeStruct\<lparr>EntityFieldsToExclude := resolved\<rparr>)))))"

definition buildCompositeStructRegistry ::
  "registry \<Rightarrow> NestedCompositeConfig list \<Rightarrow> (error + registry) option" where
  "buildCompositeStructRegistry reg compositesConfigItems =
     forEachM compositesConfigItems resolveComposite
       (fold (\<lambda>composite r. registerComposite r composite) compositesConfigItems reg)"

text \<open>\<open>getNestedFields\<close>: the field names a parent's own fields must not contain.\<close>

lemma size_G_Group: "size_list size (G_Group nested) < Suc (size nested + k)"
  by (cases nested) simp

function getNestedFields :: "registry \<Rightarrow> NestedGroupConfig list \<Rightarrow> string list" where
  "getNestedFields reg [] = []"
| "getNestedFields reg (nested # config) =
     (if G_IsComposite nested = Some True
      then (case reg (G_StructOut nested) of
              None \<Rightarrow> []
            | Some compositeData \<Rightarrow>
                if length (DirectNestedFields compositeData) > 0
                then EntityFieldsToExclude compositeData else [])
      else G_StructIn nested # getNestedFields reg (G_Group nested))
     @ getNestedFields reg config"
  by pat_completeness auto
termination
  by (relation "measure (\<lambda>(reg, config). size_list size config)") (auto simp: size_G_Group)

section \<open>Resolved tree and its builder (nested.go)\<close>

text \<open>
  \<open>NestedStructData\<close>, with the fields in the order of the source.  \<open>FieldTags\<close> and
  \<open>Match\<close> (output only) and \<open>ShouldGenerateEntityToCompositeFunction\<close> (never set by
  the builder) are left out.  \<open>DuplicatedRelativeToParents\<close> is a Go map from level to flag,
  kept as an association list; a level that is absent reads as \<open>false\<close> in Go.
\<close>

datatype NestedStructData = NestedStructData
  (StructIn: string)
  (StructOut: string)
  (FieldGroupBy: string)
  (FieldName: string)
  (FieldType: string)
  (RowFieldName: string)
  (RowFieldType: string)
  (IsRowFieldExistsInQuery: bool)
  (KeyType: string)
  (IsSlice: bool)
  (IsPointer: bool)
  (IsComposite: bool)
  (IsEntityStruct: bool)
  (IsRoot: bool)
  (DuplicatedRelativeToParents: "(nat \<times> bool) list")
  (Fields: "Field list")
  (NestedStructs: "NestedStructData list")
  (SkipStructGeneration: bool)

text \<open>The two assignments made to a node after its construction.\<close>

fun set_NestedStructs :: "NestedStructData \<Rightarrow> NestedStructData list \<Rightarrow> NestedStructData" where
  "set_NestedStructs (NestedStructData a1 a2 a3 a4 a5 a6 a7 a8 a9 a10 a11 a12 a13 a14 a15 a16 a17 a18) cs =
     NestedStructData a1 a2 a3 a4 a5 a6 a7 a8 a9 a10 a11 a12 a13 a14 a15 a16 cs a18"

fun set_DuplicatedRelativeToParents :: "NestedStructData \<Rightarrow> (nat \<times> bool) list \<Rightarrow> NestedStructData" where
  "set_DuplicatedRelativeToParents (NestedStructData a1 a2 a3 a4 a5 a6 a7 a8 a9 a10 a11 a12 a13 a14 a15 a16 a17 a18) m =
     NestedStructData a1 a2 a3 a4 a5 a6 a7 a8 a9 a10 a11 a12 a13 a14 m a16 a17 a18"

record NestedQueryTemplateData =
  FunctionName :: string
  TD_Query :: Query
  RootStructName :: string
  RootStructData :: "NestedStructData option"
  EmitPointers :: bool
  EmitJSONTags :: bool
  CastToQueryName :: string

record Nested =
  SourceFileName :: string
  Configs :: "NestedQueryConfig list"
  NestedDataItems :: "NestedQueryTemplateData list"

record Options =
  EmitJsonTags :: bool
  EmitResultStructPointers :: bool
  OutputModelsPackage :: string
  O_Nested :: "NestedConfig option"

text \<open>
  The builder.  \<open>B_Pluralize\<close> and \<open>B_Singularize\<close> stand for \<open>flect.Pluralize\<close> and
  \<open>flect.Singularize\<close> of the external inflection library.
\<close>

record NestedQueryTemplateDataBuilder =
  B_options :: Options
  B_queries :: "Query list"
  B_structs :: "Struct list"
  B_nested :: "Nested list"
  B_Pluralize :: "string \<Rightarrow> string"
  B_Singularize :: "string \<Rightarrow> string"

definition bindE :: "error + 'a \<Rightarrow> ('a \<Rightarrow> error + 'b) \<Rightarrow> error + 'b" where
  "bindE r f = (case r of Inl e \<Rightarrow> Inl e | Inr x \<Rightarrow> f x)"

definition getQueryByName :: "NestedQueryTemplateDataBuilder \<Rightarrow> string \<Rightarrow> Query option" where
  "getQueryByName b queryName = find (\<lambda>query. Q_MethodName query = queryName) (B_queries b)"

fun isRowFieldExistsInQueryLoop :: "Query list \<Rightarrow> string \<Rightarrow> NestedGroupConfig \<Rightarrow> error + bool" where
  "isRowFieldExistsInQueryLoop [] queryName config = Inr False"
| "isRowFieldExistsInQueryLoop (query # rest) queryName config =
     (if Q_MethodName query = queryName
      then (case Q_RetStruct query of
              None \<Rightarrow> Inl NilPointerDereference
            | Some rowFields \<Rightarrow>
                if G_StructIn config \<in> set (map F_Name rowFields) then Inr True
                else isRowFieldExistsInQueryLoop rest queryName config)
      else isRowFieldExistsInQueryLoop rest queryName config)"

definition isRowFieldExistsInQuery ::
  "NestedQueryTemplateDataBuilder \<Rightarrow> string \<Rightarrow> NestedGroupConfig \<Rightarrow> error + bool" where
  "isRowFieldExistsInQuery b queryName config = isRowFieldExistsInQueryLoop (B_queries b) queryName config"

definition extractFields :: "Field list \<Rightarrow> string list \<Rightarrow> string \<Rightarrow> Field list" where
  "extractFields allFields fieldsToExclued rowFieldPrefix =
     map (\<lambda>field.
            \<lparr>F_Name = F_Name field,
             F_DBName = (if rowFieldPrefix \<noteq> [] then Join [rowFieldPrefix, F_Name field] ''.''
                         else F_Name field),
             F_Type = F_Type field,
             F_Tags = F_Tags field\<rparr>)
       (filter (\<lambda>field. F_Name field \<notin> set fieldsToExclued) allFields)"

definition getNonNestedStructFields ::
  "registry \<Rightarrow> Field list \<Rightarrow> NestedGroupConfig list \<Rightarrow> Field list" where
  "getNonNestedStructFields reg flds groupConfig =
     extractFields flds (getNestedFields reg groupConfig) []"

definition structExistsInSchema :: "NestedQueryTemplateDataBuilder \<Rightarrow> string \<Rightarrow> bool" where
  "structExistsInSchema b structName = (structName \<in> set (map S_Name (B_structs b)))"

definition shouldReuseEntityStruct ::
  "NestedQueryTemplateDataBuilder \<Rightarrow> string \<Rightarrow> string \<Rightarrow> NestedGroupConfig \<Rightarrow> bool" where
  "shouldReuseEntityStruct b structOut structIn config =
     (if G_IsComposite config = Some True then False
      else if \<not> structExistsInSchema b structIn then False
      else if length (G_Group config) > 0 then False
      else True)"

definition determineKeyType :: "string \<Rightarrow> string" where
  "determineKeyType field = ''pgtype.UUID''"

definition getFieldNameFromNestedConfig ::
  "NestedQueryTemplateDataBuilder \<Rightarrow> NestedGroupConfig \<Rightarrow> string" where
  "getFieldNameFromNestedConfig b nested =
     (if G_FieldOut nested = []
      then (if G_IsSlice nested = None \<or> G_IsSlice nested = Some True
            then inflectCasePreserving (G_StructIn nested) (B_Pluralize b)
            else inflectCasePreserving (G_StructIn nested) (B_Singularize b))
      else G_FieldOut nested)"

definition getFieldType ::
  "NestedQueryTemplateDataBuilder \<Rightarrow> string \<Rightarrow> string \<Rightarrow> bool \<Rightarrow> bool \<Rightarrow> bool \<Rightarrow>
   NestedGroupConfig option \<Rightarrow> string" where
  "getFieldType b structIn structOut isSlice isPointer isEntityStruct nestedConfig =
     (let useEntityPrefix =
            (if isEntityStruct then True
             else (case nestedConfig of
                     None \<Rightarrow> False
                   | Some nc \<Rightarrow> shouldReuseEntityStruct b structOut structIn nc));
          structType = (if useEntityPrefix then ''entity.'' @ structIn else structOut)
      in if isSlice then (if isPointer then ''[]*'' @ structType else ''[]'' @ structType)
         else (if isPointer then ''*'' @ structType else structType))"

definition IsCompositeStructAlreadyGenerated :: "registry \<Rightarrow> NestedGroupConfig \<Rightarrow> error + bool" where
  "IsCompositeStructAlreadyGenerated reg config =
     (if GetIsComposite config
      then (case reg (G_StructOut config) of
              None \<Rightarrow> Inl NilPointerDereference
            | Some compositeData \<Rightarrow> Inr (IsStructAlreadyGenerated compositeData))
      else Inr False)"

definition IsCompositeStructWillBeGeneratedInAnotherFile ::
  "NestedQueryTemplateDataBuilder \<Rightarrow> NestedGroupConfig \<Rightarrow> bool" where
  "IsCompositeStructWillBeGeneratedInAnotherFile b config =
     list_ex (\<lambda>nestedItem.
        list_ex (\<lambda>nestedConfig. QC_StructRoot nestedConfig = G_StructOut config \<and> GetIsComposite config)
          (Configs nestedItem))
       (B_nested b)"

subsection \<open>Duplicate flags\<close>

lemma size_NestedStructs: "c \<in> set (NestedStructs n) \<Longrightarrow> size c < size n"
  by (cases n) (auto simp: less_Suc_eq_le size_list_estimation')

lemma size_list_NestedStructs:
  "x \<in> set xs \<Longrightarrow> size_list size (NestedStructs x) < size_list size xs"
proof -
  assume "x \<in> set xs"
  then have "size x \<le> size_list size xs"
    by (simp add: size_list_estimation')
  moreover have "size_list size (NestedStructs x) < size x"
    by (cases x) simp
  ultimately show ?thesis by simp
qed

lemma size_set_DuplicatedRelativeToParents [simp]:
  "size (set_DuplicatedRelativeToParents n m) = size n"
  by (cases n) simp

text \<open>
  \<open>collectAllNestedStructsByStructOut\<close> fills a map from \<open>StructOut\<close> to the nodes below
  \<open>data\<close> that carry it.
\<close>

function collectAllNestedStructsByStructOut ::
  "NestedStructData \<Rightarrow> (string \<rightharpoonup> NestedStructData list) \<Rightarrow> (string \<rightharpoonup> NestedStructData list)" where
  "collectAllNestedStructsByStructOut data structOutMap =
     fold (\<lambda>nestedStruct m.
             collectAllNestedStructsByStructOut nestedStruct
               (m(StructOut nestedStruct \<mapsto>
                    (case m (StructOut nestedStruct) of None \<Rightarrow> [] | Some l \<Rightarrow> l) @ [nestedStruct])))
       (NestedStructs data) structOutMap"
  by pat_completeness auto
termination
  by (relation "measure (\<lambda>(data, m). size data)") (auto simp: size_NestedStructs)

declare collectAllNestedStructsByStructOut.simps [simp del]

text \<open>The flag of one level: the ancestor's map has the node's \<open>StructOut\<close> more than once.\<close>

definition duplicatedAtLevel :: "NestedStructData \<Rightarrow> NestedStructData list \<Rightarrow> nat \<Rightarrow> bool" where
  "duplicatedAtLevel nestedStruct childAncestors level =
     (let ancestorIndex = length childAncestors - level;
          ancestorNode = childAncestors ! ancestorIndex;
          structOutMap = collectAllNestedStructsByStructOut ancestorNode Map.empty
      in (case structOutMap (StructOut nestedStruct) of
            None \<Rightarrow> False
          | Some structOutStructs \<Rightarrow> length structOutStructs > 1))"

text \<open>
  \<open>updateDuplicatesFromNodePerspective\<close> writes the flags into the nodes below \<open>current\<close>;
  the model returns \<open>current\<close> with its subtree updated.  The level runs from 1 to the number
  of ancestors, so \<open>childAncestors ! ancestorIndex\<close> is always in range.
\<close>

function updateDuplicatesFromNodePerspective ::
  "NestedStructData \<Rightarrow> NestedStructData list \<Rightarrow> NestedStructData" where
  "updateDuplicatesFromNodePerspective current ancestors =
     set_NestedStructs current
       (map (\<lambda>nestedStruct.
               let childAncestors = ancestors @ [current];
                   flagged = set_DuplicatedRelativeToParents nestedStruct
                     (fold (\<lambda>level m. AList.update level (duplicatedAtLevel nestedStruct childAncestors level) m)
                        [1 ..< Suc (length childAncestors)]
                        (DuplicatedRelativeToParents nestedStruct))
               in updateDuplicatesFromNodePerspective flagged childAncestors)
          (NestedStructs current))"
  by pat_completeness auto
termination
  by (relation "measure (\<lambda>(current, ancestors). size current)") (auto simp: size_NestedStructs)

declare updateDuplicatesFromNodePerspective.simps [simp del]

subsection \<open>Validation (nested\_validation.go)\<close>

text \<open>
  Modelled from the spec: \<open>getStructByName\<close> is not among the source files; it is the
  lookup of the catalog entity of a given name, \<open>nil\<close> when there is none.
\<close>

definition getStructByName :: "Struct list \<Rightarrow> string \<Rightarrow> Struct option" where
  "getStructByName structs name = find (\<lambda>s. S_Name s = name) structs"

definition fieldExistsInEntityFields :: "Field list \<Rightarrow> string \<Rightarrow> bool" where
  "fieldExistsInEntityFields entityFields fieldName = (fieldName \<in> set (map F_Name entityFields))"

definition formatAvailableFields :: "Field list \<Rightarrow> string" where
  "formatAvailableFields flds =
     (if length flds = 0 then ''none'' else ''['' @ Join (map F_Name flds) '', '' @ '']'')"

text \<open>A Go \<open>error\<close> result is an \<open>error option\<close>: \<open>None\<close> is \<open>nil\<close>.\<close>

definition validateCompositeFieldsAgainstEntity ::
  "Struct list \<Rightarrow> string \<Rightarrow> Field list \<Rightarrow> string \<Rightarrow> string \<Rightarrow> string \<Rightarrow> error option" where
  "validateCompositeFieldsAgainstEntity structs compositeStructName compositeFields
       entityStructName parentStructName contextType =
     (case getStructByName structs entityStructName of
        None \<Rightarrow> None
      | Some entityStruct \<Rightarrow>
          (let missingFields =
                 map F_Name
                   (filter (\<lambda>compositeField.
                              \<not> fieldExistsInEntityFields (S_Fields entityStruct) (F_Name compositeField))
                      compositeFields)
           in if length missingFields > 0
              then (let formattedFields = formatAvailableFields (S_Fields entityStruct)
                    in if contextType = ''root''
                       then Some (RootCompositeFieldsMissing compositeStructName missingFields
                                    entityStructName formattedFields)
                       else Some (NestedCompositeFieldsMissing compositeStructName parentStructName
                                    missingFields entityStructName formattedFields))
              else None))"

text \<open>A loop that returns the first error of its body.\<close>

fun firstError :: "('a \<Rightarrow> error option) \<Rightarrow> 'a list \<Rightarrow> error option" where
  "firstError f [] = None"
| "firstError f (x # xs) = (case f x of Some e \<Rightarrow> Some e | None \<Rightarrow> firstError f xs)"

lemma firstError_cong [fundef_cong]:
  "xs = ys \<Longrightarrow> (\<And>x. x \<in> set ys \<Longrightarrow> f x = g x) \<Longrightarrow> firstError f xs = firstError g ys"
  by (induction ys arbitrary: xs) (auto split: option.splits)

function validateCompositeFieldsExistInEntity ::
  "NestedStructData list \<Rightarrow> Query \<Rightarrow> Struct list \<Rightarrow> string \<Rightarrow> error option" where
  "validateCompositeFieldsExistInEntity nestedStructs query structs parentStructName =
     firstError (\<lambda>nestedStruct.
        (case (if IsComposite nestedStruct \<and> IsRowFieldExistsInQuery nestedStruct
               then validateCompositeFieldsAgainstEntity structs (StructOut nestedStruct)
                      (Fields nestedStruct) (StructIn nestedStruct) parentStructName ''nested''
               else None) of
           Some err \<Rightarrow> Some err
         | None \<Rightarrow>
             if length (NestedStructs nestedStruct) > 0
             then validateCompositeFieldsExistInEntity (NestedStructs nestedStruct) query structs
                    parentStructName
             else None))
       nestedStructs"
  by pat_completeness auto
termination
  by (relation "measure (\<lambda>(nestedStructs, query, structs, parentStructName). size_list size nestedStructs)")
     (auto simp: size_list_NestedStructs)

declare validateCompositeFieldsExistInEntity.simps [simp del]

definition validateExtractedFields ::
  "registry \<Rightarrow> Field list \<Rightarrow> NestedStructData list \<Rightarrow> Query \<Rightarrow> Struct list \<Rightarrow> string \<Rightarrow> error option" where
  "validateExtractedFields reg flds nestedStructs query structs structOut =
     (case (case reg structOut of
              Some compositeData \<Rightarrow>
                validateCompositeFieldsAgainstEntity structs structOut flds
                  (C_StructRootIn (Config compositeData)) structOut ''root''
            | None \<Rightarrow> None) of
        Some err \<Rightarrow> Some err
      | None \<Rightarrow>
          (case validateCompositeFieldsExistInEntity nestedStructs query structs structOut of
             Some err \<Rightarrow> Some (ValidationFailedForStruct structOut err)
           | None \<Rightarrow> None))"

text \<open>
  \<open>collectMethodsRecursive\<close> appends to \<open>methods\<close> and records the method names in
  \<open>seen\<close>; the model passes both through.
\<close>

function collectMethodsRecursive ::
  "NestedStructData \<Rightarrow> RowGetterInterfaceMethod list \<times> string set \<Rightarrow> bool \<Rightarrow>
   RowGetterInterfaceMethod list \<times> string set" where
  "collectMethodsRecursive structData acc isCollectingAvailableMethods =
     fold (\<lambda>nestedStruct (methods, seen).
             let shouldIncludeMethod =
                   (if isCollectingAvailableMethods then IsRowFieldExistsInQuery nestedStruct else True);
                 methodName = ''Get'' @ StructIn nestedStruct;
                 acc1 = (if shouldIncludeMethod \<and> methodName \<notin> seen
                         then (methods @ [\<lparr>MethodName = methodName,
                                            ReturnType = RowFieldType nestedStruct,
                                            M_StructIn = StructIn nestedStruct\<rparr>],
                               insert methodName seen)
                         else (methods, seen))
             in if length (NestedStructs nestedStruct) > 0
                then collectMethodsRecursive nestedStruct acc1 isCollectingAvailableMethods
                else acc1)
       (NestedStructs structData) acc"
  by pat_completeness auto
termination
  by (relation "measure (\<lambda>(structData, acc, flag). size structData)") (auto simp: size_NestedStructs)

declare collectMethodsRecursive.simps [simp del]

definition collectRequiredMethods :: "NestedStructData \<Rightarrow> RowGetterInterfaceMethod list" where
  "collectRequiredMethods structData = fst (collectMethodsRecursive structData ([], {}) True)"

definition collectCompositeRequiredMethods :: "NestedStructData \<Rightarrow> RowGetterInterfaceMethod list" where
  "collectCompositeRequiredMethods structData = fst (collectMethodsRecursive structData ([], {}) False)"

definition findMissingMethods ::
  "RowGetterInterfaceMethod list \<Rightarrow> RowGetterInterfaceMethod list \<Rightarrow> RowGetterInterfaceMethod list" where
  "findMissingMethods available required =
     filter (\<lambda>requiredMethod. MethodName requiredMethod \<notin> set (map MethodName available)) required"

function validateNestedCompositeInterfaces ::
  "NestedStructData \<Rightarrow> RowGetterInterfaceMethod list \<Rightarrow> string \<Rightarrow> error option" where
  "validateNestedCompositeInterfaces parentStruct parentMethods rootStructName =
     firstError (\<lambda>nestedStruct.
        (case (if IsComposite nestedStruct
               then (let nestedMethods = collectCompositeRequiredMethods nestedStruct;
                         missingMethods = findMissingMethods parentMethods nestedMethods
                     in if length missingMethods > 0
                        then Some (InterfaceValidationFailed (StructOut nestedStruct) rootStructName
                                     (StructOut parentStruct) missingMethods)
                        else validateNestedCompositeInterfaces nestedStruct parentMethods rootStructName)
               else None) of
           Some err \<Rightarrow> Some err
         | None \<Rightarrow>
             if length (NestedStructs nestedStruct) > 0
             then validateNestedCompositeInterfaces nestedStruct parentMethods rootStructName
             else None))
       (NestedStructs parentStruct)"
  by pat_completeness auto
termination
  by (relation "measure (\<lambda>(parentStruct, parentMethods, rootStructName). size parentStruct)")
     (auto simp: size_NestedStructs)

declare validateNestedCompositeInterfaces.simps [simp del]

definition validateNestedInterfaceCompatibility :: "NestedStructData \<Rightarrow> string \<Rightarrow> error option" where
  "validateNestedInterfaceCompatibility rootStruct rootStructName =
     validateNestedCompositeInterfaces rootStruct (collectRequiredMethods rootStruct) rootStructName"

subsection \<open>buildNestedStructData\<close>

text \<open>
  \<open>buildNestedStructData\<close> up to the construction of \<open>result\<close> (the node without its
  children): the query lookup, the field extraction, the composite's configuration, the
  skip decision and the mark in the registry.  It returns the node, the configurations of its
  children, the registry and the query.  \<open>compositeStructRegistry[k].Config\<close> on an absent key
  dereferences a nil pointer.
\<close>

definition newNestedStructData ::
  "NestedQueryTemplateDataBuilder \<Rightarrow> registry \<Rightarrow> string \<Rightarrow> NestedGroupConfig \<Rightarrow>
   NestedStructData option \<Rightarrow> Field list \<Rightarrow>
   error + (NestedStructData \<times> NestedGroupConfig list \<times> registry \<times> Query)" where
  "newNestedStructData b reg queryName config parent structFields =
     (case getQueryByName b queryName of
        None \<Rightarrow> Inl (QueryNotFound queryName)
      | Some query \<Rightarrow>
          (let flds = getNonNestedStructFields reg structFields [config]
           in bindE (if GetIsComposite config
                     then (case reg (G_StructOut config) of
                             None \<Rightarrow> Inl NilPointerDereference
                           | Some compositeData \<Rightarrow>
                               Inr (C_Group (Config compositeData), C_StructRootIn (Config compositeData)))
                     else Inr (G_Group config, G_StructIn config))
                (\<lambda>(nestedConfigs, structIn).
                   let isEntity = shouldReuseEntityStruct b (G_StructOut config) (G_StructIn config) config;
                       fieldName = getFieldNameFromNestedConfig b config;
                       fieldType = getFieldType b (G_StructIn config) (G_StructOut config)
                                     (GetIsSlice config) (GetIsPointer config) isEntity (Some config);
                       isRootConfig = (parent = None)
                   in bindE (IsCompositeStructAlreadyGenerated reg config)
                        (\<lambda>isAlreadyGenerated.
                           let willBeGeneratedInAnotherFile =
                                 IsCompositeStructWillBeGeneratedInAnotherFile b config;
                               parentSkips = (case parent of
                                                None \<Rightarrow> False
                                              | Some p \<Rightarrow> SkipStructGeneration p);
                               skipStructGeneration =
                                 (\<not> isRootConfig \<and>
                                  (isAlreadyGenerated \<or> willBeGeneratedInAnotherFile \<or> parentSkips))
                           in bindE (if isRootConfig \<or>
                                        (\<not> willBeGeneratedInAnotherFile \<and>
                                         reg (G_StructOut config) \<noteq> None \<and> \<not> parentSkips)
                                     then (case reg (G_StructOut config) of
                                             None \<Rightarrow> Inl NilPointerDereference
                                           | Some compositeData \<Rightarrow>
                                               Inr (reg(G_StructOut config \<mapsto>
                                                      compositeData\<lparr>IsStructAlreadyGenerated := True\<rparr>)))
                                     else Inr reg)
                                (\<lambda>reg1.
                                   bindE (isRowFieldExistsInQuery b queryName config)
                                     (\<lambda>rowFieldExists.
                                        Inr (NestedStructData
                                               structIn
                                               (G_StructOut config)
                                               (G_FieldGroupBy config)
                                               fieldName
                                               fieldType
                                               (G_StructIn config)
                                               (OutputModelsPackage (B_options b) @ ''.'' @ G_StructIn config)
                                               rowFieldExists
                                               (determineKeyType (G_FieldGroupBy config))
                                               (GetIsSlice config)
                                               (GetIsPointer config)
                                               (GetIsComposite config)
                                               isEntity
                                               isRootConfig
                                               []
                                               flds
                                               []
                                               skipStructGeneration,
                                             nestedConfigs, reg1, query)))))))"

text \<open>
  The end of \<open>buildNestedStructData\<close>, once the children are built: they are stored, the root
  validates the extracted fields, and the duplicate flags are set from this node down.
\<close>

definition finishNestedStructData ::
  "NestedQueryTemplateDataBuilder \<Rightarrow> registry \<Rightarrow> string \<Rightarrow> NestedGroupConfig \<Rightarrow> Query \<Rightarrow>
   NestedStructData \<Rightarrow> NestedStructData list \<Rightarrow> error + NestedStructData" where
  "finishNestedStructData b reg queryName config query result nestedStructs =
     (case (if IsRoot result
            then validateExtractedFields reg (Fields result) nestedStructs query (B_structs b)
                   (G_StructOut config)
            else None) of
        Some err \<Rightarrow> Inl (ValidationFailedForQuery queryName err)
      | None \<Rightarrow> Inr (updateDuplicatesFromNodePerspective (set_NestedStructs result nestedStructs) []))"

text \<open>\<open>buildNestedStructsList\<close> looks up the fields of the catalog struct named \<open>StructIn\<close>.\<close>

definition structFieldsOf :: "NestedQueryTemplateDataBuilder \<Rightarrow> string \<Rightarrow> Field list" where
  "structFieldsOf b structIn =
     (case find (\<lambda>s. S_Name s = structIn) (B_structs b) of None \<Rightarrow> [] | Some s \<Rightarrow> S_Fields s)"

text \<open>
  The children of a composite reference come from the registry, not from the node's own
  configuration, so the recursion is not structural and need not end.  The first argument
  bounds its depth; \<open>None\<close> is a call that did not return within the bound.
\<close>

fun buildNestedStructData ::
  "nat \<Rightarrow> NestedQueryTemplateDataBuilder \<Rightarrow> registry \<Rightarrow> string \<Rightarrow> NestedGroupConfig \<Rightarrow>
   NestedStructData option \<Rightarrow> Field list \<Rightarrow> (error + NestedStructData \<times> registry) option"
and buildNestedStructsList ::
  "nat \<Rightarrow> NestedQueryTemplateDataBuilder \<Rightarrow> registry \<Rightarrow> string \<Rightarrow> NestedStructData \<Rightarrow>
   NestedGroupConfig list \<Rightarrow> (error + NestedStructData list \<times> registry) option" where
  "buildNestedStructData 0 b reg queryName config parent structFields = None"
| "buildNestedStructData (Suc depth) b reg queryName config parent structFields =
     (case newNestedStructData b reg queryName config parent structFields of
        Inl err \<Rightarrow> Some (Inl err)
      | Inr (result, nestedConfigs, reg1, query) \<Rightarrow>
          (case buildNestedStructsList depth b reg1 queryName result nestedConfigs of
             None \<Rightarrow> None
           | Some (Inl err) \<Rightarrow> Some (Inl err)
           | Some (Inr (nestedStructs, reg2)) \<Rightarrow>
               (case finishNestedStructData b reg2 queryName config query result nestedStructs of
                  Inl err \<Rightarrow> Some (Inl err)
                | Inr node \<Rightarrow> Some (Inr (node, reg2)))))"
| "buildNestedStructsList depth b reg queryName parent [] = Some (Inr ([], reg))"
| "buildNestedStructsList depth b reg queryName parent (nested # grp) =
     (case buildNestedStructData depth b reg queryName nested (Some parent)
             (structFieldsOf b (G_StructIn nested)) of
        None \<Rightarrow> None
      | Some (Inl err) \<Rightarrow> Some (Inl err)
      | Some (Inr (nestedData, reg1)) \<Rightarrow>
          (case buildNestedStructsList depth b reg1 queryName parent grp of
             None \<Rightarrow> None
           | Some (Inl err) \<Rightarrow> Some (Inl err)
           | Some (Inr (nestedStructs, reg2)) \<Rightarrow> Some (Inr (nestedData # nestedStructs, reg2))))"

subsection \<open>Template data of a query, of a source file, of a run\<close>

definition buildNestedWrapperData ::
  "NestedQueryTemplateDataBuilder \<Rightarrow> Query \<Rightarrow> NestedQueryConfig \<Rightarrow> string \<Rightarrow>
   error + NestedQueryTemplateData" where
  "buildNestedWrapperData b query config firstQueryName =
     Inr \<lparr>FunctionName = ''Group'' @ Q_MethodName query,
          TD_Query = query,
          RootStructName = QC_StructRoot config,
          RootStructData = None,
          EmitPointers = EmitResultStructPointers (B_options b),
          EmitJSONTags = EmitJsonTags (B_options b),
          CastToQueryName = firstQueryName\<rparr>"

text \<open>
  \<open>buildNestedData\<close>.  The call of \<open>validateNestedInterfaceCompatibility\<close> after the tree is
  built is commented out in the source, so it is not part of the function.
\<close>

definition buildNestedData ::
  "nat \<Rightarrow> NestedQueryTemplateDataBuilder \<Rightarrow> registry \<Rightarrow> Query \<Rightarrow> NestedQueryConfig \<Rightarrow>
   (error + NestedQueryTemplateData \<times> registry) option" where
  "buildNestedData depth b reg query config =
     (let queryName = (if Q_MethodName query = [] then Q_SourceName query else Q_MethodName query);
          rootStruct = (if QC_StructRoot config = [] then queryName @ ''Group'' else QC_StructRoot config);
          functionName = ''Group'' @ queryName;
          rootField = (if QC_FieldGroupBy config = [] then ''ID'' else QC_FieldGroupBy config);
          structFields = (case Q_RetStruct query of None \<Rightarrow> [] | Some rowFields \<Rightarrow> rowFields)
      in (case buildNestedStructData depth b reg (Q_MethodName query)
                (NestedGroupConfig rootField [] rootStruct rootStruct None None
                   (QC_IsComposite config) (QC_Group config))
                None structFields of
            None \<Rightarrow> None
          | Some (Inl err) \<Rightarrow> Some (Inl err)
          | Some (Inr (nestedStructData, reg1)) \<Rightarrow>
              Some (Inr (\<lparr>FunctionName = functionName,
                          TD_Query = query,
                          RootStructName = QC_StructRoot config,
                          RootStructData = Some nestedStructData,
                          EmitPointers = EmitResultStructPointers (B_options b),
                          EmitJSONTags = EmitJsonTags (B_options b),
                          CastToQueryName = []\<rparr>, reg1))))"

text \<open>
  One iteration of the loop of \<open>buildNestedDataItems\<close>.  The state is the list of items, the
  map \<open>generatedStructRoots\<close> and the registry.  A configuration whose query is not found is
  skipped (\<open>continue\<close>); the message that the source logs there is not modelled.
\<close>

definition buildNestedDataItem ::
  "nat \<Rightarrow> NestedQueryTemplateDataBuilder \<Rightarrow> NestedQueryConfig \<Rightarrow>
   NestedQueryTemplateData list \<times> (string \<rightharpoonup> string) \<times> registry \<Rightarrow>
   (error + NestedQueryTemplateData list \<times> (string \<rightharpoonup> string) \<times> registry) option" where
  "buildNestedDataItem depth b config st =
     (case st of (nestedDataItems, generatedStructRoots, reg) \<Rightarrow>
        (case find (\<lambda>q. Q_MethodName q = QC_Query config \<or> Q_SourceName q = QC_Query config)
                (B_queries b) of
           None \<Rightarrow> Some (Inr (nestedDataItems, generatedStructRoots, reg))
         | Some targetQuery \<Rightarrow>
             (let structRoot = (if QC_StructRoot config = [] then QC_Query config @ ''Group''
                                else QC_StructRoot config)
              in if (case generatedStructRoots structRoot of
                       None \<Rightarrow> False
                     | Some firstQuery \<Rightarrow> firstQuery \<noteq> QC_Query config)
                 then (case buildNestedWrapperData b targetQuery config
                              (case generatedStructRoots structRoot of None \<Rightarrow> [] | Some firstQuery \<Rightarrow> firstQuery) of
                         Inl err \<Rightarrow> Some (Inl (FailedToGenerateWrapperFunction (QC_Query config) err))
                       | Inr nestedDataItem \<Rightarrow>
                           Some (Inr (nestedDataItems @ [nestedDataItem], generatedStructRoots, reg)))
                 else (case buildNestedData depth b reg targetQuery config of
                         None \<Rightarrow> None
                       | Some (Inl err) \<Rightarrow>
                           Some (Inl (FailedToGenerateNestedFunction (QC_Query config) err))
                       | Some (Inr (nestedDataItem, reg1)) \<Rightarrow>
                           Some (Inr (nestedDataItems @ [nestedDataItem],
                                      generatedStructRoots(structRoot \<mapsto> QC_Query config), reg1))))))"

definition buildNestedDataItems ::
  "nat \<Rightarrow> NestedQueryTemplateDataBuilder \<Rightarrow> registry \<Rightarrow> NestedQueryConfig list \<Rightarrow>
   (error + NestedQueryTemplateData list \<times> registry) option" where
  "buildNestedDataItems depth b reg queryConfigs =
     (case forEachM queryConfigs (buildNestedDataItem depth b) ([], Map.empty, reg) of
        None \<Rightarrow> None
      | Some (Inl err) \<Rightarrow> Some (Inl err)
      | Some (Inr (nestedDataItems, generatedStructRoots, reg1)) \<Rightarrow> Some (Inr (nestedDataItems, reg1)))"

text \<open>
  \<open>populateNestedDataItems\<close>: the registry is built from the composites of the options, then
  every source file gets its items.  \<open>reg\<close> is the registry at the start (a global of the
  process, empty when the process starts).
\<close>

definition populateNestedDataItems ::
  "nat \<Rightarrow> (string \<Rightarrow> string) \<Rightarrow> (string \<Rightarrow> string) \<Rightarrow> registry \<Rightarrow>
   Options \<Rightarrow> Query list \<Rightarrow> Struct list \<Rightarrow> Nested list \<Rightarrow> (error + Nested list \<times> registry) option" where
  "populateNestedDataItems depth pluralize singularize reg options queries structs nested =
     Option.bind
       (buildCompositeStructRegistry reg
          (case O_Nested options of None \<Rightarrow> [] | Some nc \<Rightarrow> Composites nc))
       (\<lambda>r. case r of
               Inl err \<Rightarrow> Some (Inl err)
             | Inr reg0 \<Rightarrow>
                 (let templateDataBuilder =
                        \<lparr>B_options = options, B_queries = queries, B_structs = structs,
                         B_nested = nested, B_Pluralize = pluralize, B_Singularize = singularize\<rparr>
                  in forEachM nested
                       (\<lambda>nestedItem (done, reg1).
                          (case buildNestedDataItems depth templateDataBuilder reg1 (Configs nestedItem) of
                             None \<Rightarrow> None
                           | Some (Inl err) \<Rightarrow> Some (Inl err)
                           | Some (Inr (nestedDataItem, reg2)) \<Rightarrow>
                               Some (Inr (done @ [nestedItem\<lparr>NestedDataItems := nestedDataItem\<rparr>], reg2))))
                       ([], reg0)))"

text \<open>
  \<open>getNestedSourceWithConfigs\<close> groups the query configurations by the source file of their
  query; a configuration whose query is not in the catalog gets no source file and is dropped.
\<close>

definition getNestedSourceWithConfigs :: "Options \<Rightarrow> Query list \<Rightarrow> Nested list" where
  "getNestedSourceWithConfigs options queries =
     (case O_Nested options of
        None \<Rightarrow> []
      | Some nc \<Rightarrow>
          fold (\<lambda>config sources.
                  (let sourceFile =
                         (case find (\<lambda>q. Q_MethodName q = QC_Query config \<or> Q_SourceName q = QC_Query config)
                                 queries of
                            None \<Rightarrow> []
                          | Some q \<Rightarrow> Q_SourceName q)
                   in if sourceFile \<noteq> []
                      then (if sourceFile \<notin> set (map SourceFileName sources)
                            then sources @ [\<lparr>SourceFileName = sourceFile, Configs = [config],
                                             NestedDataItems = []\<rparr>]
                            else map (\<lambda>src. if SourceFileName src = sourceFile
                                             then src\<lparr>Configs := Configs src @ [config]\<rparr> else src)
                                   sources)
                      else sources))
            (Queries nc) [])"

text \<open>
  The nesting steps of \<open>Generate\<close>: defaults, grouping by source file, template data.
\<close>

definition GenerateNested ::
  "nat \<Rightarrow> (string \<Rightarrow> string) \<Rightarrow> (string \<Rightarrow> string) \<Rightarrow> registry \<Rightarrow>
   Options \<Rightarrow> Query list \<Rightarrow> Struct list \<Rightarrow> (error + Nested list \<times> registry) option" where
  "GenerateNested depth pluralize singularize reg options queries structs =
     (let options1 = options\<lparr>O_Nested := populateNestedConfigWithDefaultValues (O_Nested options)\<rparr>;
          nestedWithoutData = getNestedSourceWithConfigs options1 queries
      in populateNestedDataItems depth pluralize singularize reg options1 queries structs nestedWithoutData)"

section \<open>Vocabulary for the properties of trees\<close>

text \<open>
  The nodes of a tree in the order of a depth-first walk (a node, then its subtrees from
  left to right), and the nodes strictly below a node.
\<close>

function allNodes :: "NestedStructData \<Rightarrow> NestedStructData list" where
  "allNodes n = n # concat (map allNodes (NestedStructs n))"
  by pat_completeness auto
termination
  by (relation "measure size") (auto simp: size_NestedStructs)

declare allNodes.simps [simp del]

definition descendants :: "NestedStructData \<Rightarrow> NestedStructData list" where
  "descendants n = concat (map allNodes (NestedStructs n))"

text \<open>
  Every node strictly below \<open>t\<close>, paired with its ancestors from the outermost one (first)
  to its parent (last); \<open>ancestors\<close> are the ancestors of \<open>t\<close> itself.
\<close>

function nodesWithAncestors ::
  "NestedStructData \<Rightarrow> NestedStructData list \<Rightarrow> (NestedStructData \<times> NestedStructData list) list" where
  "nodesWithAncestors t ancestors =
     concat (map (\<lambda>c. (c, ancestors @ [t]) # nodesWithAncestors c (ancestors @ [t])) (NestedStructs t))"
  by pat_completeness auto
termination
  by (relation "measure (\<lambda>(t, ancestors). size t)") (auto simp: size_NestedStructs)

declare nodesWithAncestors.simps [simp del]

text \<open>
  The reference graph of a registry: \<open>(m, n)\<close> when the fragment registered as \<open>n\<close>
  references the fragment name \<open>m\<close>.
\<close>

definition references :: "registry \<Rightarrow> (string \<times> string) set" where
  "references reg = {(m, n). \<exists>info. reg n = Some info \<and> m \<in> snd ` set (NestedFieldToCompositeNameMap info)}"

text \<open>
  The check that \<open>validateCompositeFieldsExistInEntity\<close> makes at one node, and the
  nodes at which it fails: composite references whose row field is in the query's row and
  whose entity is in the catalog but lacks one of the node's fields.
\<close>

definition compositeFieldError :: "Struct list \<Rightarrow> string \<Rightarrow> NestedStructData \<Rightarrow> error option" where
  "compositeFieldError structs parentStructName nestedStruct =
     (if IsComposite nestedStruct \<and> IsRowFieldExistsInQuery nestedStruct
      then validateCompositeFieldsAgainstEntity structs (StructOut nestedStruct)
             (Fields nestedStruct) (StructIn nestedStruct) parentStructName ''nested''
      else None)"



text \<open>
  The check that \<open>validateNestedCompositeInterfaces\<close> makes at one node, given the node
  and its ancestors (the last one is its parent).
\<close>

definition compositeInterfaceError ::
  "RowGetterInterfaceMethod list \<Rightarrow> string \<Rightarrow> NestedStructData \<times> NestedStructData list \<Rightarrow> error option" where
  "compositeInterfaceError parentMethods rootStructName =
     (\<lambda>(nestedStruct, ancestors).
        if IsComposite nestedStruct \<and>
           findMissingMethods parentMethods (collectCompositeRequiredMethods nestedStruct) \<noteq> []
        then Some (InterfaceValidationFailed (StructOut nestedStruct) rootStructName
                     (StructOut (last ancestors))
                     (findMissingMethods parentMethods (collectCompositeRequiredMethods nestedStruct)))
        else None)"

text \<open>
  The accessor names of the nodes strictly below \<open>t\<close>: of all of them, or only of those
  whose row field is in the query's row; and the accessor name of one node.
\<close>

definition getterNames :: "bool \<Rightarrow> NestedStructData \<Rightarrow> string set" where
  "getterNames onlyAvailable t =
     {''Get'' @ StructIn d | d. d \<in> set (descendants t) \<and> (onlyAvailable \<longrightarrow> IsRowFieldExistsInQuery d)}"

definition ownGetter :: "bool \<Rightarrow> NestedStructData \<Rightarrow> string set" where
  "ownGetter flag x = (if flag \<longrightarrow> IsRowFieldExistsInQuery x then {''Get'' @ StructIn x} else {})"

text \<open>
  A composite reference \<open>c\<close> of the tree of \<open>rootStruct\<close> lacks a nested entity when
  some node below \<open>c\<close> has a \<open>StructIn\<close> that no node below the root takes from the
  query's row.
\<close>

definition lacksNestedEntity :: "NestedStructData \<Rightarrow> NestedStructData \<Rightarrow> bool" where
  "lacksNestedEntity rootStruct c =
     (IsComposite c \<and>
      (\<exists>d\<in>set (descendants c).
         \<not> (\<exists>a\<in>set (descendants rootStruct). IsRowFieldExistsInQuery a \<and> StructIn a = StructIn d)))"

text \<open>
  The flags that \<open>updateDuplicatesFromNodePerspective\<close> writes into a node, given the
  node's ancestors: one entry per level, from 1 to the number of ancestors.
\<close>

definition levelFlags :: "NestedStructData \<Rightarrow> NestedStructData list \<Rightarrow> (nat \<times> bool) list" where
  "levelFlags nestedStruct childAncestors =
     fold (\<lambda>level m. AList.update level (duplicatedAtLevel nestedStruct childAncestors level) m)
       [1 ..< Suc (length childAncestors)]
       (DuplicatedRelativeToParents nestedStruct)"

text \<open>
  The output type names of the nodes strictly below a node, in the order of the walk; and the
  map that \<open>collectAllNestedStructsByStructOut\<close> builds, described directly: every node
  of \<open>ds\<close> is appended to the entry of its \<open>StructOut\<close>.
\<close>

definition structOutsBelow :: "NestedStructData \<Rightarrow> string list" where
  "structOutsBelow n = map StructOut (descendants n)"

definition appendTo :: "(string \<rightharpoonup> NestedStructData list) \<Rightarrow> NestedStructData list \<Rightarrow> (string \<rightharpoonup> NestedStructData list)" where
  "appendTo m ds = (\<lambda>k. if filter (\<lambda>d. StructOut d = k) ds = [] then m k
                        else Some ((case m k of None \<Rightarrow> [] | Some l \<Rightarrow> l) @ filter (\<lambda>d. StructOut d = k) ds))"

text \<open>The trees of a run: the root structures of all items of all source files.\<close>

definition treesOfItems :: "NestedQueryTemplateData list \<Rightarrow> NestedStructData list" where
  "treesOfItems items = concat (map (\<lambda>item. case RootStructData item of None \<Rightarrow> [] | Some t \<Rightarrow> [t]) items)"

definition treesOfRun :: "Nested list \<Rightarrow> NestedStructData list" where
  "treesOfRun nested = concat (map (\<lambda>nestedItem. treesOfItems (NestedDataItems nestedItem)) nested)"

section \<open>Example inputs\<close>

text \<open>
  A small catalog: authors with books, the query \<open>ListAuthors\<close> of \<open>authors.sql\<close>
  whose row has the author's columns and embeds \<open>Book\<close>.
\<close>

definition mkField :: "string \<Rightarrow> string \<Rightarrow> Field" where
  "mkField name type = \<lparr>F_Name = name, F_DBName = name, F_Type = type, F_Tags = []\<rparr>"

definition ex_structs :: "Struct list" where
  "ex_structs =
     [\<lparr>S_Name = ''Author'', S_Fields = [mkField ''ID'' ''int64'', mkField ''Name'' ''string'']\<rparr>,
      \<lparr>S_Name = ''Book'', S_Fields = [mkField ''ID'' ''int64'', mkField ''Title'' ''string'']\<rparr>]"

definition ex_ListAuthors :: Query where
  "ex_ListAuthors =
     \<lparr>Q_MethodName = ''ListAuthors'', Q_SourceName = ''authors.sql'',
      Q_RetStruct = Some [mkField ''ID'' ''int64'', mkField ''Name'' ''string'',
                          mkField ''Book'' ''entity.Book'']\<rparr>"

definition ex_options :: "NestedConfig \<Rightarrow> Options" where
  "ex_options nc =
     \<lparr>EmitJsonTags = False, EmitResultStructPointers = False, OutputModelsPackage = ''entity'',
      O_Nested = Some nc\<rparr>"

definition ex_builder :: "NestedQueryTemplateDataBuilder" where
  "ex_builder =
     \<lparr>B_options = ex_options \<lparr>Composites = [], Queries = []\<rparr>, B_queries = [ex_ListAuthors],
      B_structs = ex_structs, B_nested = [], B_Pluralize = id, B_Singularize = id\<rparr>"

text \<open>
  A query configuration that leaves \<open>composite\<close> unspecified, at the root and at its one
  node, and declares no composite fragment.
\<close>

definition ex_plain_config :: NestedQueryConfig where
  "ex_plain_config =
     \<lparr>QC_Query = ''ListAuthors'', QC_FieldGroupBy = [], QC_StructRoot = ''AuthorGroup'',
      QC_Group = [NestedGroupConfig [] ''Books'' ''Book'' [] None None None []],
      QC_IsComposite = None\<rparr>"

text \<open>A query configuration for a query that the catalog does not have.\<close>

definition ex_unknown_config :: NestedQueryConfig where
  "ex_unknown_config =
     \<lparr>QC_Query = ''ListPublishers'', QC_FieldGroupBy = [], QC_StructRoot = ''PublisherGroup'',
      QC_Group = [], QC_IsComposite = Some False\<rparr>"

text \<open>
  Composite fragments: one that references itself, and two that form a chain
  (\<open>AuthorGroup\<close> nests \<open>Book\<close> as the fragment \<open>BookComposite\<close>, which nests
  \<open>Image\<close>); \<open>ex_registry\<close> is the registry after pass 1 for the chain.
\<close>

definition ex_cyclic_composite :: NestedCompositeConfig where
  "ex_cyclic_composite =
     \<lparr>C_Name = ''AuthorComposite'', C_StructRootIn = ''Author'',
      C_Group = [NestedGroupConfig ''ID'' [] ''Author'' ''AuthorComposite'' (Some True) (Some True) (Some True) []]\<rparr>"

definition ex_AuthorGroup :: NestedCompositeConfig where
  "ex_AuthorGroup =
     \<lparr>C_Name = ''AuthorGroup'', C_StructRootIn = ''Author'',
      C_Group = [NestedGroupConfig ''ID'' ''Books'' ''Book'' ''BookComposite''
                   (Some True) (Some True) (Some True) []]\<rparr>"

definition ex_BookComposite :: NestedCompositeConfig where
  "ex_BookComposite =
     \<lparr>C_Name = ''BookComposite'', C_StructRootIn = ''Book'',
      C_Group = [NestedGroupConfig ''ID'' ''Images'' ''Image'' ''Image''
                   (Some True) (Some True) (Some False) []]\<rparr>"

definition ex_registry :: registry where
  "ex_registry = fold (\<lambda>composite r. registerComposite r composite) [ex_AuthorGroup, ex_BookComposite] Map.empty"

text \<open>
  The registry after both passes for the chain, a query configuration whose root is the
  fragment \<open>AuthorGroup\<close>, and the builder for it.  The row of \<open>ListAuthors\<close> embeds
  \<open>Book\<close> but not \<open>Image\<close>.
\<close>

definition ex_shared_registry :: registry where
  "ex_shared_registry =
     [''AuthorGroup'' \<mapsto>
        \<lparr>Config = ex_AuthorGroup, DirectNestedFields = [''Book''],
         NestedFieldToCompositeNameMap = [(''Book'', ''BookComposite'')],
         EntityFieldsToExclude = [''Book'', ''Image''], IsStructAlreadyGenerated = False\<rparr>,
      ''BookComposite'' \<mapsto>
        \<lparr>Config = ex_BookComposite, DirectNestedFields = [''Image''],
         NestedFieldToCompositeNameMap = [],
         EntityFieldsToExclude = [''Image''], IsStructAlreadyGenerated = False\<rparr>]"

definition ex_shared_config :: NestedQueryConfig where
  "ex_shared_config =
     \<lparr>QC_Query = ''ListAuthors'', QC_FieldGroupBy = [], QC_StructRoot = ''AuthorGroup'',
      QC_Group = [], QC_IsComposite = Some True\<rparr>"

definition ex_shared_builder :: NestedQueryTemplateDataBuilder where
  "ex_shared_builder =
     ex_builder\<lparr>B_nested := [\<lparr>SourceFileName = ''authors.sql'', Configs = [ex_shared_config],
                               NestedDataItems = []\<rparr>]\<rparr>"

text \<open>The options of a request that declares the chain and this query configuration.\<close>

definition ex_shared_options :: Options where
  "ex_shared_options =
     ex_options \<lparr>Composites = [ex_AuthorGroup, ex_BookComposite], Queries = [ex_shared_config]\<rparr>"





definition ex_root_config :: NestedGroupConfig where
  "ex_root_config = NestedGroupConfig ''ID'' [] ''AuthorGroup'' ''AuthorGroup'' None None (Some True) []"

text \<open>
  A catalog, a row and a registry for a tree in which one output type occurs twice: the
  fragment \<open>AuthorGroup\<close> nests \<open>Book\<close> as \<open>BookComposite\<close> and nests
  \<open>Publisher\<close>, which nests \<open>Book\<close> as \<open>BookComposite\<close> again.
\<close>

definition ex_dup_structs :: "Struct list" where
  "ex_dup_structs =
     [\<lparr>S_Name = ''Author'', S_Fields = [mkField ''ID'' ''int64'', mkField ''Name'' ''string'']\<rparr>,
      \<lparr>S_Name = ''Book'', S_Fields = [mkField ''ID'' ''int64'', mkField ''Title'' ''string'']\<rparr>,
      \<lparr>S_Name = ''Publisher'', S_Fields = [mkField ''ID'' ''int64'', mkField ''Name'' ''string'']\<rparr>]"

definition ex_dup_row :: "Field list" where
  "ex_dup_row =
     [mkField ''ID'' ''int64'', mkField ''Name'' ''string'', mkField ''Book'' ''entity.Book'',
      mkField ''Publisher'' ''entity.Publisher'']"

definition ex_dup_registry :: registry where
  "ex_dup_registry =
     [''AuthorGroup'' \<mapsto>
        \<lparr>Config = \<lparr>C_Name = ''AuthorGroup'', C_StructRootIn = ''Author'',
                    C_Group = [NestedGroupConfig ''ID'' ''Books'' ''Book'' ''BookComposite''
                                 (Some True) (Some True) (Some True) [],
                               NestedGroupConfig ''ID'' ''Publishers'' ''Publisher'' ''Publisher''
                                 (Some True) (Some True) (Some False)
                                 [NestedGroupConfig ''ID'' ''Books'' ''Book'' ''BookComposite''
                                    (Some True) (Some True) (Some True) []]]\<rparr>,
         DirectNestedFields = [''Book'', ''Publisher''],
         NestedFieldToCompositeNameMap = [(''Book'', ''BookComposite'')],
         EntityFieldsToExclude = [''Book'', ''Publisher''], IsStructAlreadyGenerated = False\<rparr>,
      ''BookComposite'' \<mapsto>
        \<lparr>Config = \<lparr>C_Name = ''BookComposite'', C_StructRootIn = ''Book'', C_Group = []\<rparr>,
         DirectNestedFields = [],
         NestedFieldToCompositeNameMap = [],
         EntityFieldsToExclude = [], IsStructAlreadyGenerated = False\<rparr>]"

definition ex_dup_builder :: NestedQueryTemplateDataBuilder where
  "ex_dup_builder =
     ex_builder\<lparr>B_structs := ex_dup_structs,
                B_queries := [\<lparr>Q_MethodName = ''ListAuthors'', Q_SourceName = ''authors.sql'',
                               Q_RetStruct = Some ex_dup_row\<rparr>]\<rparr>"

section \<open>Properties\<close>

subsection \<open>Auxiliary facts about the loops\<close>

lemma forEachM_skip:
  "body x = (\<lambda>s. Some (Inr s)) \<Longrightarrow> forEachM (xs @ x # ys) body s = forEachM (xs @ ys) body s"
  by (induction xs arbitrary: s) (auto split: sum.splits intro!: arg_cong2[where f = Option.bind])

lemma buildNestedDataItem_unknown:
  "find (\<lambda>q. Q_MethodName q = QC_Query config \<or> Q_SourceName q = QC_Query config) (B_queries b) = None
   \<Longrightarrow> buildNestedDataItem depth b config = (\<lambda>st. Some (Inr st))"
  by (auto simp: buildNestedDataItem_def fun_eq_iff)

lemma forEachM_total:
  "(\<And>x s. x \<in> set xs \<Longrightarrow> \<exists>r. body x s = Some r) \<Longrightarrow> \<exists>r. forEachM xs body s = Some r"
proof (induction xs arbitrary: s)
  case Nil
  then show ?case by simp
next
  case (Cons a xs)
  obtain r where r: "body a s = Some r" using Cons.prems[of a s] by auto
  show ?case
  proof (cases r)
    case (Inl e)
    with r show ?thesis by simp
  next
    case (Inr s')
    have "\<exists>r. forEachM xs body s' = Some r"
      by (rule Cons.IH) (use Cons.prems in auto)
    with r Inr show ?thesis by simp
  qed
qed

lemma cyc_aux:
  assumes "resolveAllTreeCompositeFields reg0 name0 = Some y0"
  shows "\<not> (reg0 = registerComposite Map.empty ex_cyclic_composite \<and> name0 = ''AuthorComposite'')"
proof (rule resolveAllTreeCompositeFields.raw_induct
    [where P = "\<lambda>reg name y. \<not> (reg = registerComposite Map.empty ex_cyclic_composite \<and> name = ''AuthorComposite'')",
     OF _ assms])
  fix f :: "registry \<Rightarrow> string \<Rightarrow> (error + string list) option"
    and reg :: registry and name :: string and y :: "error + string list"
  assume IH: "\<And>reg name y. f reg name = Some y \<Longrightarrow>
     \<not> (reg = registerComposite Map.empty ex_cyclic_composite \<and> name = ''AuthorComposite'')"
  assume body: "(case reg name of
        None \<Rightarrow> Some (Inl (CompositeNotFoundDirectFields name))
      | Some compositeInfo \<Rightarrow>
          forEachM (map snd (NestedFieldToCompositeNameMap compositeInfo))
            (\<lambda>nestedCompositeName entityFields.
               Option.bind (f reg nestedCompositeName)
                 (\<lambda>r. case r of
                         Inl err \<Rightarrow> Some (Inl err)
                       | Inr allNestedCompositeFields \<Rightarrow>
                           Some (Inr (entityFields @ allNestedCompositeFields))))
            (DirectNestedFields compositeInfo)) = Some y"
  show "\<not> (reg = registerComposite Map.empty ex_cyclic_composite \<and> name = ''AuthorComposite'')"
  proof
    assume a: "reg = registerComposite Map.empty ex_cyclic_composite \<and> name = ''AuthorComposite''"
    with body have "\<exists>r. f (registerComposite Map.empty ex_cyclic_composite) ''AuthorComposite'' = Some r"
      by (auto simp: registerComposite_def registerCompositeStructData_def ex_cyclic_composite_def
          split: Option.bind_splits)
    then obtain r where "f (registerComposite Map.empty ex_cyclic_composite) ''AuthorComposite'' = Some r" ..
    from IH[OF this] show False by simp
  qed
qed

lemma ex_registry_simps:
  "ex_registry = [''AuthorGroup'' \<mapsto>
       \<lparr>Config = ex_AuthorGroup, DirectNestedFields = [''Book''],
        NestedFieldToCompositeNameMap = [(''Book'', ''BookComposite'')],
        EntityFieldsToExclude = [], IsStructAlreadyGenerated = False\<rparr>,
     ''BookComposite'' \<mapsto>
       \<lparr>Config = ex_BookComposite, DirectNestedFields = [''Image''],
        NestedFieldToCompositeNameMap = [],
        EntityFieldsToExclude = [], IsStructAlreadyGenerated = False\<rparr>]"
  by (simp add: ex_registry_def registerComposite_def registerCompositeStructData_def
      ex_AuthorGroup_def ex_BookComposite_def)

lemma wf_ex_registry: "wf (references ex_registry)"
proof -
  have "references ex_registry \<subseteq> {(''BookComposite'', ''AuthorGroup'')}"
    by (auto simp: references_def ex_registry_simps split: if_splits)
  moreover have "wf {(''BookComposite'', ''AuthorGroup'')}"
    by (simp add: wf_insert)
  ultimately show ?thesis by (rule wf_subset[rotated])
qed

lemma firstError_append:
  "firstError f (xs @ ys) = (case firstError f xs of Some e \<Rightarrow> Some e | None \<Rightarrow> firstError f ys)"
  by (induction xs) (auto split: option.splits)

lemma firstError_concat_map:
  "firstError (\<lambda>x. firstError f (g x)) xs = firstError f (concat (map g xs))"
  by (induction xs) (auto simp: firstError_append split: option.splits)

lemma firstError_find:
  "firstError f xs = (case find (\<lambda>x. f x \<noteq> None) xs of None \<Rightarrow> None | Some x \<Rightarrow> f x)"
  by (induction xs) (auto split: option.splits)

lemma allNodes_leaf: "NestedStructs n = [] \<Longrightarrow> allNodes n = [n]"
  by (subst allNodes.simps) simp

lemma validateCompositeFieldsExistInEntity_walk:
  "validateCompositeFieldsExistInEntity nestedStructs query structs parentStructName =
     firstError (compositeFieldError structs parentStructName) (concat (map allNodes nestedStructs))"
proof (induction nestedStructs query structs parentStructName
    rule: validateCompositeFieldsExistInEntity.induct)
  case (1 nestedStructs query structs parentStructName)
  have step: "(case compositeFieldError structs parentStructName x of
           Some err \<Rightarrow> Some err
         | None \<Rightarrow>
             if length (NestedStructs x) > 0
             then validateCompositeFieldsExistInEntity (NestedStructs x) query structs parentStructName
             else None)
        = firstError (compositeFieldError structs parentStructName) (allNodes x)"
    if "x \<in> set nestedStructs" for x
  proof (cases "compositeFieldError structs parentStructName x")
    case (Some e)
    then show ?thesis by (subst allNodes.simps) simp
  next
    case None
    show ?thesis
    proof (cases "NestedStructs x = []")
      case True
      with None show ?thesis by (simp add: allNodes_leaf)
    next
      case False
      with None that have "validateCompositeFieldsExistInEntity (NestedStructs x) query structs parentStructName
          = firstError (compositeFieldError structs parentStructName) (concat (map allNodes (NestedStructs x)))"
        by (intro "1.IH") (auto simp: compositeFieldError_def)
      with None False show ?thesis by (subst allNodes.simps) simp
    qed
  qed
  have "validateCompositeFieldsExistInEntity nestedStructs query structs parentStructName
      = firstError (\<lambda>x. firstError (compositeFieldError structs parentStructName) (allNodes x)) nestedStructs"
  proof (subst validateCompositeFieldsExistInEntity.simps, rule firstError_cong[OF refl])
    fix x assume "x \<in> set nestedStructs"
    from step[OF this] show "(case if IsComposite x \<and> IsRowFieldExistsInQuery x
               then validateCompositeFieldsAgainstEntity structs (StructOut x)
                      (Fields x) (StructIn x) parentStructName ''nested''
               else None of
           Some err \<Rightarrow> Some err
         | None \<Rightarrow>
             if length (NestedStructs x) > 0
             then validateCompositeFieldsExistInEntity (NestedStructs x) query structs
                    parentStructName
             else None) = firstError (compositeFieldError structs parentStructName) (allNodes x)"
      by (simp only: compositeFieldError_def)
  qed
  then show ?case by (simp add: firstError_concat_map)
qed








lemma nodesWithAncestors_leaf: "NestedStructs n = [] \<Longrightarrow> nodesWithAncestors n A = []"
  by (subst nodesWithAncestors.simps) simp

lemma validateNestedCompositeInterfaces_walk:
  "validateNestedCompositeInterfaces parentStruct parentMethods rootStructName =
     firstError (compositeInterfaceError parentMethods rootStructName) (nodesWithAncestors parentStruct A)"
proof (induction parentStruct parentMethods rootStructName arbitrary: A
    rule: validateNestedCompositeInterfaces.induct)
  case (1 parentStruct parentMethods rootStructName)
  let ?cie = "compositeInterfaceError parentMethods rootStructName"
  let ?A = "A @ [parentStruct]"
  have step: "(case (if IsComposite x
               then (let nestedMethods = collectCompositeRequiredMethods x;
                         missingMethods = findMissingMethods parentMethods nestedMethods
                     in if length missingMethods > 0
                        then Some (InterfaceValidationFailed (StructOut x) rootStructName
                                     (StructOut parentStruct) missingMethods)
                        else validateNestedCompositeInterfaces x parentMethods rootStructName)
               else None) of
           Some err \<Rightarrow> Some err
         | None \<Rightarrow>
             if length (NestedStructs x) > 0
             then validateNestedCompositeInterfaces x parentMethods rootStructName
             else None)
        = firstError ?cie ((x, ?A) # nodesWithAncestors x ?A)"
    if x: "x \<in> set (NestedStructs parentStruct)" for x
  proof (cases "IsComposite x \<and> findMissingMethods parentMethods (collectCompositeRequiredMethods x) \<noteq> []")
    case True
    then show ?thesis by (simp add: compositeInterfaceError_def Let_def)
  next
    case False
    then have c: "?cie (x, ?A) = None" by (simp add: compositeInterfaceError_def)
    show ?thesis
    proof (cases "IsComposite x")
      case True
      with False have m: "findMissingMethods parentMethods (collectCompositeRequiredMethods x) = []" by simp
      have "validateNestedCompositeInterfaces x parentMethods rootStructName
              = firstError ?cie (nodesWithAncestors x ?A)"
        using "1.IH"(1)[OF x True refl refl, of ?A] m by simp
      with True m c show ?thesis
        by (auto simp: Let_def nodesWithAncestors_leaf split: option.splits)
    next
      case nc: False
      show ?thesis
      proof (cases "NestedStructs x = []")
        case True
        with nc c show ?thesis by (simp add: nodesWithAncestors_leaf)
      next
        case ne: False
        have "validateNestedCompositeInterfaces x parentMethods rootStructName
              = firstError ?cie (nodesWithAncestors x ?A)"
          using "1.IH"(2)[OF x _ _, of ?A] nc ne by simp
        with nc ne c show ?thesis by simp
      qed
    qed
  qed
  have "validateNestedCompositeInterfaces parentStruct parentMethods rootStructName
      = firstError (\<lambda>x. firstError ?cie ((x, ?A) # nodesWithAncestors x ?A)) (NestedStructs parentStruct)"
  proof (subst validateNestedCompositeInterfaces.simps, rule firstError_cong[OF refl])
    fix x assume "x \<in> set (NestedStructs parentStruct)"
    from step[OF this] show "(case (if IsComposite x
               then (let nestedMethods = collectCompositeRequiredMethods x;
                         missingMethods = findMissingMethods parentMethods nestedMethods
                     in if length missingMethods > 0
                        then Some (InterfaceValidationFailed (StructOut x) rootStructName
                                     (StructOut parentStruct) missingMethods)
                        else validateNestedCompositeInterfaces x parentMethods rootStructName)
               else None) of
           Some err \<Rightarrow> Some err
         | None \<Rightarrow>
             if length (NestedStructs x) > 0
             then validateNestedCompositeInterfaces x parentMethods rootStructName
             else None) = firstError ?cie ((x, ?A) # nodesWithAncestors x ?A)" .
  qed
  also have "\<dots> = firstError ?cie
      (concat (map (\<lambda>c. (c, ?A) # nodesWithAncestors c ?A) (NestedStructs parentStruct)))"
    by (rule firstError_concat_map)
  also have "\<dots> = firstError ?cie (nodesWithAncestors parentStruct A)"
    by (simp only: nodesWithAncestors.simps[of parentStruct A])
  finally show ?case .
qed


lemma descendants_eq: "descendants t = concat (map allNodes (NestedStructs t))"
  by (simp add: descendants_def)

lemma allNodes_eq: "allNodes t = t # descendants t"
  by (subst allNodes.simps) (simp add: descendants_def)

lemma set_descendants:
  "set (descendants t) = (\<Union>x\<in>set (NestedStructs t). insert x (set (descendants x)))"
  by (simp add: descendants_eq[of t] allNodes_eq)

lemma getterNames_eq:
  "getterNames flag t = (\<Union>x\<in>set (NestedStructs t). ownGetter flag x \<union> getterNames flag x)"
proof -
  have "getterNames flag t = (\<lambda>d. ''Get'' @ StructIn d) ` {d \<in> set (descendants t). flag \<longrightarrow> IsRowFieldExistsInQuery d}"
    by (auto simp: getterNames_def)
  also have "\<dots> = (\<Union>x\<in>set (NestedStructs t).
       (\<lambda>d. ''Get'' @ StructIn d) ` {d \<in> insert x (set (descendants x)). flag \<longrightarrow> IsRowFieldExistsInQuery d})"
    unfolding set_descendants[of t] by blast
  also have "\<dots> = (\<Union>x\<in>set (NestedStructs t). ownGetter flag x \<union> getterNames flag x)"
  proof -
    have "(\<lambda>d. ''Get'' @ StructIn d) ` {d \<in> insert x (set (descendants x)). flag \<longrightarrow> IsRowFieldExistsInQuery d}
        = ownGetter flag x \<union> getterNames flag x" for x
      unfolding ownGetter_def getterNames_def by (cases "flag \<longrightarrow> IsRowFieldExistsInQuery x") auto
    then show ?thesis by simp
  qed
  finally show ?thesis .
qed

lemma collectMethodsRecursive_names:
  assumes "snd acc = MethodName ` set (fst acc)"
  shows "snd (collectMethodsRecursive t acc flag) = MethodName ` set (fst (collectMethodsRecursive t acc flag))
       \<and> MethodName ` set (fst (collectMethodsRecursive t acc flag))
           = MethodName ` set (fst acc) \<union> getterNames flag t"
  using assms
proof (induction "size t" arbitrary: t acc rule: less_induct)
  case less
  define step where "step = (\<lambda>nestedStruct (methods, seen).
             let shouldIncludeMethod =
                   (if flag then IsRowFieldExistsInQuery nestedStruct else True);
                 methodName = ''Get'' @ StructIn nestedStruct;
                 acc1 = (if shouldIncludeMethod \<and> methodName \<notin> seen
                         then (methods @ [\<lparr>MethodName = methodName,
                                            ReturnType = RowFieldType nestedStruct,
                                            M_StructIn = StructIn nestedStruct\<rparr>],
                               insert methodName seen)
                         else (methods, seen))
             in if length (NestedStructs nestedStruct) > 0
                then collectMethodsRecursive nestedStruct acc1 flag
                else acc1)"
  have one: "snd (step x a) = MethodName ` set (fst (step x a))
       \<and> MethodName ` set (fst (step x a))
           = MethodName ` set (fst a) \<union> (ownGetter flag x \<union> getterNames flag x)"
    if x: "x \<in> set (NestedStructs t)" and a: "snd a = MethodName ` set (fst a)" for x a
  proof -
    obtain methods seen where am: "a = (methods, seen)" by (cases a)
    define a1 where "a1 = (if (if flag then IsRowFieldExistsInQuery x else True) \<and> ''Get'' @ StructIn x \<notin> seen
                         then (methods @ [\<lparr>MethodName = ''Get'' @ StructIn x,
                                            ReturnType = RowFieldType x,
                                            M_StructIn = StructIn x\<rparr>],
                               insert (''Get'' @ StructIn x) seen)
                         else (methods, seen))"
    have st: "step x a = (if length (NestedStructs x) > 0 then collectMethodsRecursive x a1 flag else a1)"
      by (simp add: step_def am a1_def Let_def)
    have s: "seen = MethodName ` set methods" using a am by simp
    have a1: "snd a1 = MethodName ` set (fst a1)"
      "MethodName ` set (fst a1) = MethodName ` set (fst a) \<union> ownGetter flag x"
      unfolding a1_def ownGetter_def am s by auto
    show ?thesis
    proof (cases "NestedStructs x = []")
      case True
      then have "getterNames flag x = {}" by (simp add: getterNames_def descendants_def)
      with True a1 st show ?thesis by simp
    next
      case False
      have "size x < size t" using x by (rule size_NestedStructs)
      from less(1)[OF this a1(1)] False a1(2) st show ?thesis by (simp add: Un_assoc)
    qed
  qed
  have all: "snd (fold step xs a) = MethodName ` set (fst (fold step xs a))
       \<and> MethodName ` set (fst (fold step xs a))
           = MethodName ` set (fst a) \<union> (\<Union>x\<in>set xs. ownGetter flag x \<union> getterNames flag x)"
    if "set xs \<subseteq> set (NestedStructs t)" "snd a = MethodName ` set (fst a)" for xs a
    using that
  proof (induction xs arbitrary: a)
    case Nil
    then show ?case by simp
  next
    case (Cons x xs)
    from Cons.prems have x: "x \<in> set (NestedStructs t)" by simp
    note o = one[OF x Cons.prems(2)]
    from Cons.prems have "set xs \<subseteq> set (NestedStructs t)" by simp
    from Cons.IH[OF this o[THEN conjunct1]] o[THEN conjunct2]
    show ?case by (simp add: Un_assoc)
  qed
  have "collectMethodsRecursive t acc flag = fold step (NestedStructs t) acc"
    by (subst collectMethodsRecursive.simps) (simp add: step_def)
  with all[OF subset_refl less.prems] show ?case
    by (simp add: getterNames_eq[of flag t])
qed


lemma collectRequiredMethods_names:
  "MethodName ` set (collectRequiredMethods t) = getterNames True t"
  using collectMethodsRecursive_names[of "([], {})" t True] by (simp add: collectRequiredMethods_def)

lemma collectCompositeRequiredMethods_names:
  "MethodName ` set (collectCompositeRequiredMethods t) = getterNames False t"
  using collectMethodsRecursive_names[of "([], {})" t False] by (simp add: collectCompositeRequiredMethods_def)

lemma findMissingMethods_names:
  "MethodName ` set (findMissingMethods available required)
     = MethodName ` set required - MethodName ` set available"
  by (auto simp: findMissingMethods_def)

lemma missing_names:
  "MethodName ` set (findMissingMethods (collectRequiredMethods rootStruct) (collectCompositeRequiredMethods c))
     = {''Get'' @ StructIn d | d. d \<in> set (descendants c) \<and>
          \<not> (\<exists>a\<in>set (descendants rootStruct). IsRowFieldExistsInQuery a \<and> StructIn a = StructIn d)}"
  unfolding findMissingMethods_names collectRequiredMethods_names collectCompositeRequiredMethods_names
    getterNames_def
  by auto

lemma compositeInterfaceError_lacks:
  "(compositeInterfaceError (collectRequiredMethods rootStruct) rootStructName (c, ancestors) \<noteq> None)
     = lacksNestedEntity rootStruct c"
proof -
  let ?m = "findMissingMethods (collectRequiredMethods rootStruct) (collectCompositeRequiredMethods c)"
  have "(?m \<noteq> []) = (MethodName ` set ?m \<noteq> {})" by simp
  also have "\<dots> = (\<exists>d\<in>set (descendants c).
         \<not> (\<exists>a\<in>set (descendants rootStruct). IsRowFieldExistsInQuery a \<and> StructIn a = StructIn d))"
    unfolding missing_names by blast
  finally show ?thesis
    by (simp add: compositeInterfaceError_def lacksNestedEntity_def)
qed

subsection \<open>Facts about built trees\<close>

text \<open>
  The two assignments keep every other field of a node; \<open>updateDuplicatesFromNodePerspective\<close>
  changes nothing but the flags, so a projection of the nodes that reads neither the flags nor
  the children is the same before and after.
\<close>

lemma set_NestedStructs_sel [simp]:
  "StructIn (set_NestedStructs n cs) = StructIn n"
  "StructOut (set_NestedStructs n cs) = StructOut n"
  "FieldGroupBy (set_NestedStructs n cs) = FieldGroupBy n"
  "RowFieldName (set_NestedStructs n cs) = RowFieldName n"
  "IsRowFieldExistsInQuery (set_NestedStructs n cs) = IsRowFieldExistsInQuery n"
  "KeyType (set_NestedStructs n cs) = KeyType n"
  "IsComposite (set_NestedStructs n cs) = IsComposite n"
  "IsRoot (set_NestedStructs n cs) = IsRoot n"
  "DuplicatedRelativeToParents (set_NestedStructs n cs) = DuplicatedRelativeToParents n"
  "Fields (set_NestedStructs n cs) = Fields n"
  "NestedStructs (set_NestedStructs n cs) = cs"
  "SkipStructGeneration (set_NestedStructs n cs) = SkipStructGeneration n"
  by (cases n, simp)+

lemma set_DuplicatedRelativeToParents_sel [simp]:
  "StructIn (set_DuplicatedRelativeToParents n m) = StructIn n"
  "StructOut (set_DuplicatedRelativeToParents n m) = StructOut n"
  "FieldGroupBy (set_DuplicatedRelativeToParents n m) = FieldGroupBy n"
  "RowFieldName (set_DuplicatedRelativeToParents n m) = RowFieldName n"
  "IsRowFieldExistsInQuery (set_DuplicatedRelativeToParents n m) = IsRowFieldExistsInQuery n"
  "KeyType (set_DuplicatedRelativeToParents n m) = KeyType n"
  "IsComposite (set_DuplicatedRelativeToParents n m) = IsComposite n"
  "IsRoot (set_DuplicatedRelativeToParents n m) = IsRoot n"
  "DuplicatedRelativeToParents (set_DuplicatedRelativeToParents n m) = m"
  "Fields (set_DuplicatedRelativeToParents n m) = Fields n"
  "NestedStructs (set_DuplicatedRelativeToParents n m) = NestedStructs n"
  "SkipStructGeneration (set_DuplicatedRelativeToParents n m) = SkipStructGeneration n"
  by (cases n, simp)+

lemma updateDuplicates_eq:
  "updateDuplicatesFromNodePerspective current ancestors =
     set_NestedStructs current
       (map (\<lambda>nestedStruct.
               updateDuplicatesFromNodePerspective
                 (set_DuplicatedRelativeToParents nestedStruct (levelFlags nestedStruct (ancestors @ [current])))
                 (ancestors @ [current]))
          (NestedStructs current))"
  by (subst updateDuplicatesFromNodePerspective.simps) (simp add: levelFlags_def Let_def)

lemma allNodes_set_Dup:
  "allNodes (set_DuplicatedRelativeToParents c m) = set_DuplicatedRelativeToParents c m # descendants c"
  by (subst allNodes.simps) (simp add: descendants_def)

lemma map_allNodes_update:
  assumes f1: "\<And>n m. f (set_DuplicatedRelativeToParents n m) = f n"
    and f2: "\<And>n cs. f (set_NestedStructs n cs) = f n"
  shows "map f (allNodes (updateDuplicatesFromNodePerspective t A)) = map f (allNodes t)"
proof (induction "size t" arbitrary: t A rule: less_induct)
  case less
  let ?A = "A @ [t]"
  have child: "map f (allNodes (updateDuplicatesFromNodePerspective
                 (set_DuplicatedRelativeToParents c (levelFlags c ?A)) ?A)) = map f (allNodes c)"
    if "c \<in> set (NestedStructs t)" for c
  proof -
    have "size (set_DuplicatedRelativeToParents c (levelFlags c ?A)) < size t"
      using that by (simp add: size_NestedStructs)
    from less[OF this] show ?thesis
      by (simp add: allNodes_set_Dup f1 allNodes_eq[of c])
  qed
  let ?t' = "updateDuplicatesFromNodePerspective t A"
  have u: "NestedStructs ?t' = map (\<lambda>c. updateDuplicatesFromNodePerspective
                 (set_DuplicatedRelativeToParents c (levelFlags c ?A)) ?A) (NestedStructs t)"
    by (subst updateDuplicates_eq) simp
  have fu: "f ?t' = f t"
    by (subst updateDuplicates_eq) (simp add: f2)
  have "map f (allNodes ?t') = f ?t' # concat (map (\<lambda>x. map f (allNodes x)) (NestedStructs ?t'))"
    by (simp add: allNodes.simps[of ?t'] map_concat comp_def)
  also have "\<dots> = f t # concat (map (\<lambda>c. map f (allNodes c)) (NestedStructs t))"
    using child by (simp add: fu u comp_def cong: map_cong)
  also have "\<dots> = map f (allNodes t)"
    by (simp add: allNodes.simps[of t] map_concat comp_def)
  finally show ?case .
qed

lemma newNestedStructData_result:
  assumes "newNestedStructData b reg queryName config parent structFields
             = Inr (result, nestedConfigs, reg1, query)"
  shows "KeyType result = determineKeyType (G_FieldGroupBy config)"
    and "FieldGroupBy result = G_FieldGroupBy config"
    and "StructOut result = G_StructOut config"
    and "IsComposite result = GetIsComposite config"
    and "IsRoot result = (parent = None)"
    and "NestedStructs result = []"
    and "Fields result = getNonNestedStructFields reg structFields [config]"
  using assms
  by (auto simp: newNestedStructData_def bindE_def Let_def
      split: option.splits sum.splits if_splits prod.splits)

lemma finishNestedStructData_Inr:
  "finishNestedStructData b reg queryName config query result nestedStructs = Inr node \<Longrightarrow>
     node = updateDuplicatesFromNodePerspective (set_NestedStructs result nestedStructs) []"
  by (auto simp: finishNestedStructData_def split: option.splits if_splits)

lemma allNodes_set_NestedStructs:
  "allNodes (set_NestedStructs result cs) = set_NestedStructs result cs # concat (map allNodes cs)"
  by (subst allNodes.simps) simp

lemma build_KeyType:
  "(\<forall>node reg'. buildNestedStructData depth b reg queryName config parent structFields = Some (Inr (node, reg'))
       \<longrightarrow> (\<forall>n\<in>set (allNodes node). KeyType n = ''pgtype.UUID''))"
  "(\<forall>nodes reg'. buildNestedStructsList depth b reg queryName parentNode grp = Some (Inr (nodes, reg'))
       \<longrightarrow> (\<forall>n\<in>set (concat (map allNodes nodes)). KeyType n = ''pgtype.UUID''))"
proof (induction depth b reg queryName config parent structFields
         and depth b reg queryName parentNode grp
       rule: buildNestedStructData_buildNestedStructsList.induct)
  case (1 b reg queryName config parent structFields)
  then show ?case by simp
next
  case (2 depth b reg queryName config parent structFields)
  show ?case
  proof (intro allI impI)
    fix node reg'
    assume a: "buildNestedStructData (Suc depth) b reg queryName config parent structFields = Some (Inr (node, reg'))"
    then obtain result nestedConfigs reg1 query nestedStructs reg2 where
      new: "newNestedStructData b reg queryName config parent structFields = Inr (result, nestedConfigs, reg1, query)"
      and kids: "buildNestedStructsList depth b reg1 queryName result nestedConfigs = Some (Inr (nestedStructs, reg2))"
      and fin: "finishNestedStructData b reg2 queryName config query result nestedStructs = Inr node"
      by (auto split: sum.splits option.splits prod.splits)
    from "2.IH"[OF new refl refl refl] kids
    have k: "\<forall>n\<in>set (concat (map allNodes nestedStructs)). KeyType n = ''pgtype.UUID''" by blast
    have r: "KeyType result = ''pgtype.UUID''"
      using newNestedStructData_result(1)[OF new] by (simp add: determineKeyType_def)
    have "map KeyType (allNodes node) = map KeyType (allNodes (set_NestedStructs result nestedStructs))"
      unfolding finishNestedStructData_Inr[OF fin] by (rule map_allNodes_update) simp_all
    then have "KeyType ` set (allNodes node) = KeyType ` set (allNodes (set_NestedStructs result nestedStructs))"
      by (metis set_map)
    also have "\<dots> \<subseteq> {''pgtype.UUID''}"
      using k r by (auto simp: allNodes_set_NestedStructs)
    finally show "\<forall>n\<in>set (allNodes node). KeyType n = ''pgtype.UUID''" by blast
  qed
next
  case (3 depth b reg queryName parent)
  then show ?case by simp
next
  case (4 depth b reg queryName parent nested grp)
  show ?case
  proof (intro allI impI)
    fix nodes reg'
    assume a: "buildNestedStructsList depth b reg queryName parent (nested # grp) = Some (Inr (nodes, reg'))"
    then obtain nestedData reg1 nestedStructs where
      one: "buildNestedStructData depth b reg queryName nested (Some parent) (structFieldsOf b (G_StructIn nested))
              = Some (Inr (nestedData, reg1))"
      and rest: "buildNestedStructsList depth b reg1 queryName parent grp = Some (Inr (nestedStructs, reg'))"
      and nodes: "nodes = nestedData # nestedStructs"
      by (auto split: sum.splits option.splits prod.splits)
    from "4.IH"(1) one have 1: "\<forall>n\<in>set (allNodes nestedData). KeyType n = ''pgtype.UUID''" by blast
    from "4.IH"(2)[OF one refl refl] rest
    have 2: "\<forall>n\<in>set (concat (map allNodes nestedStructs)). KeyType n = ''pgtype.UUID''" by blast
    from 1 2 nodes show "\<forall>n\<in>set (concat (map allNodes nodes)). KeyType n = ''pgtype.UUID''" by auto
  qed
qed


lemma forEachM_invariant:
  assumes "forEachM xs body s = Some (Inr s')" and "I s"
    and "\<And>x s s'. x \<in> set xs \<Longrightarrow> I s \<Longrightarrow> body x s = Some (Inr s') \<Longrightarrow> I s'"
  shows "I s'"
  using assms
proof (induction xs arbitrary: s)
  case Nil
  then show ?case by simp
next
  case (Cons a xs)
  from Cons.prems(1) obtain s1 where a: "body a s = Some (Inr s1)" and r: "forEachM xs body s1 = Some (Inr s')"
    by (auto split: Option.bind_splits sum.splits)
  have "I s1" using Cons.prems(3)[of a s s1] Cons.prems(2) a by simp
  show ?case
    by (rule Cons.IH[OF r \<open>I s1\<close>]) (use Cons.prems(3) in auto)
qed

lemma buildNestedData_tree:
  assumes "buildNestedData depth b reg query config = Some (Inr (item, reg1))"
  shows "\<exists>t. buildNestedStructData depth b reg (Q_MethodName query)
                (NestedGroupConfig
                   (if QC_FieldGroupBy config = [] then ''ID'' else QC_FieldGroupBy config) []
                   (if QC_StructRoot config = []
                    then (if Q_MethodName query = [] then Q_SourceName query else Q_MethodName query) @ ''Group''
                    else QC_StructRoot config)
                   (if QC_StructRoot config = []
                    then (if Q_MethodName query = [] then Q_SourceName query else Q_MethodName query) @ ''Group''
                    else QC_StructRoot config)
                   None None (QC_IsComposite config) (QC_Group config))
                None (case Q_RetStruct query of None \<Rightarrow> [] | Some rowFields \<Rightarrow> rowFields)
              = Some (Inr (t, reg1)) \<and>
           RootStructData item = Some t"
  using assms
  by (auto simp: buildNestedData_def Let_def split: option.splits sum.splits prod.splits)

lemma treesOfItems_append: "treesOfItems (xs @ ys) = treesOfItems xs @ treesOfItems ys"
  by (simp add: treesOfItems_def)

lemma buildNestedDataItems_trees:
  assumes P: "\<And>depth b reg queryName config structFields t reg1.
             buildNestedStructData depth b reg queryName config None structFields = Some (Inr (t, reg1)) \<Longrightarrow> P t"
    and run: "buildNestedDataItems depth b reg configs = Some (Inr (items, reg'))"
  shows "\<forall>t\<in>set (treesOfItems items). P t"
proof -
  from run obtain g where
    f: "forEachM configs (buildNestedDataItem depth b) ([], Map.empty, reg) = Some (Inr (items, g, reg'))"
    by (auto simp: buildNestedDataItems_def split: option.splits sum.splits prod.splits)
  have "(\<lambda>(items, g, r). \<forall>t\<in>set (treesOfItems items). P t) (items, g, reg')"
  proof (rule forEachM_invariant[OF f])
    show "(\<lambda>(items, g, r). \<forall>t\<in>set (treesOfItems items). P t) ([], Map.empty, reg)"
      by (simp add: treesOfItems_def)
  next
    fix x :: NestedQueryConfig
      and s s' :: "NestedQueryTemplateData list \<times> (string \<rightharpoonup> string) \<times> registry"
    assume I: "(\<lambda>(items, g, r). \<forall>t\<in>set (treesOfItems items). P t) s"
      and step: "buildNestedDataItem depth b x s = Some (Inr s')"
    obtain its g0 r0 where s: "s = (its, g0, r0)" by (cases s)
    obtain its' g1 r1 where s': "s' = (its', g1, r1)" by (cases s')
    from step have "its' = its \<or> (\<exists>item. its' = its @ [item] \<and> RootStructData item = None)
        \<or> (\<exists>item query. its' = its @ [item] \<and> buildNestedData depth b r0 query x = Some (Inr (item, r1)))"
      unfolding s s' buildNestedDataItem_def buildNestedWrapperData_def
      by (auto simp: Let_def split: option.splits sum.splits prod.splits if_splits)
    then show "(\<lambda>(items, g, r). \<forall>t\<in>set (treesOfItems items). P t) s'"
    proof (elim disjE exE conjE)
      assume "its' = its" with I s s' show ?thesis by simp
    next
      fix item assume "its' = its @ [item]" "RootStructData item = None"
      with I s s' show ?thesis by (simp add: treesOfItems_append) (simp add: treesOfItems_def)
    next
      fix item query assume a: "its' = its @ [item]" and bd: "buildNestedData depth b r0 query x = Some (Inr (item, r1))"
      from buildNestedData_tree[OF bd] obtain queryName rootConfig structFields t where
        t: "buildNestedStructData depth b r0 queryName rootConfig None structFields = Some (Inr (t, r1))"
        "RootStructData item = Some t" by (elim exE conjE) (rule that, assumption+)
      have "treesOfItems [item] = [t]" using t(2) by (simp add: treesOfItems_def)
      with I s s' a P[OF t(1)] show ?thesis by (simp add: treesOfItems_append)
    qed
  qed
  then show ?thesis by simp
qed

lemma GenerateNested_trees:
  assumes P: "\<And>depth b reg queryName config structFields t reg1.
             buildNestedStructData depth b reg queryName config None structFields = Some (Inr (t, reg1)) \<Longrightarrow> P t"
    and run: "GenerateNested depth pluralize singularize reg options queries structs = Some (Inr (nested, reg'))"
  shows "\<forall>t\<in>set (treesOfRun nested). P t"
proof -
  define options1 where "options1 = options\<lparr>O_Nested := populateNestedConfigWithDefaultValues (O_Nested options)\<rparr>"
  define b where "b = \<lparr>B_options = options1, B_queries = queries, B_structs = structs,
                         B_nested = getNestedSourceWithConfigs options1 queries,
                         B_Pluralize = pluralize, B_Singularize = singularize\<rparr>"
  define body where "body = (\<lambda>(nestedItem :: Nested) (done, reg1).
                          (case buildNestedDataItems depth b reg1 (Configs nestedItem) of
                             None \<Rightarrow> None
                           | Some (Inl err) \<Rightarrow> Some (Inl err)
                           | Some (Inr (nestedDataItem, reg2)) \<Rightarrow>
                               Some (Inr (done @ [nestedItem\<lparr>NestedDataItems := nestedDataItem\<rparr>], reg2))))"
  from run obtain reg0 where
    f: "forEachM (getNestedSourceWithConfigs options1 queries) body ([], reg0) = Some (Inr (nested, reg'))"
    unfolding GenerateNested_def populateNestedDataItems_def Let_def options1_def[symmetric]
      b_def[symmetric] body_def[symmetric]
    by (auto split: Option.bind_splits sum.splits)
  have "(\<lambda>(done, r). \<forall>t\<in>set (treesOfRun done). P t) (nested, reg')"
  proof (rule forEachM_invariant[OF f])
    show "(\<lambda>(done, r). \<forall>t\<in>set (treesOfRun done). P t) ([], reg0)"
      by (simp add: treesOfRun_def)
  next
    fix x :: Nested and s s' :: "Nested list \<times> registry"
    assume I: "(\<lambda>(done, r). \<forall>t\<in>set (treesOfRun done). P t) s"
      and step: "body x s = Some (Inr s')"
    obtain dn r0 where s: "s = (dn, r0)" by (cases s)
    from step obtain items r1 where
      its: "buildNestedDataItems depth b r0 (Configs x) = Some (Inr (items, r1))"
      and s': "s' = (dn @ [x\<lparr>NestedDataItems := items\<rparr>], r1)"
      unfolding s body_def by (auto split: option.splits sum.splits prod.splits)
    from buildNestedDataItems_trees[of P, OF P its]
    have "\<forall>t\<in>set (treesOfItems items). P t" .
    with I s s' show "(\<lambda>(done, r). \<forall>t\<in>set (treesOfRun done). P t) s'"
      by (auto simp: treesOfRun_def)
  qed
  then show ?thesis by simp
qed

text \<open>
  The duplicate flags.  \<open>collectAllNestedStructsByStructOut\<close> appends the nodes below
  its argument to the map, so a flag compares a count among the descendants of an ancestor;
  the loop over the levels sets one entry per level; and the nodes of the updated tree carry
  the flags computed from the ancestors' \<open>StructOut\<close> names, which the update keeps.
\<close>

lemma structOutsBelow_update:
  "structOutsBelow (updateDuplicatesFromNodePerspective t A) = structOutsBelow t"
proof -
  have "map StructOut (allNodes (updateDuplicatesFromNodePerspective t A)) = map StructOut (allNodes t)"
    by (rule map_allNodes_update) simp_all
  then show ?thesis
    by (simp add: structOutsBelow_def allNodes_eq)
qed

lemma update_sel [simp]:
  "StructOut (updateDuplicatesFromNodePerspective t A) = StructOut t"
  "DuplicatedRelativeToParents (updateDuplicatesFromNodePerspective t A) = DuplicatedRelativeToParents t"
  by (subst updateDuplicates_eq, simp)+

lemma update_children:
  "NestedStructs (updateDuplicatesFromNodePerspective t A) =
     map (\<lambda>c. updateDuplicatesFromNodePerspective
                 (set_DuplicatedRelativeToParents c (levelFlags c (A @ [t]))) (A @ [t])) (NestedStructs t)"
  by (subst updateDuplicates_eq) simp

lemma appendTo_Nil [simp]: "appendTo m [] = m"
  by (simp add: appendTo_def)

lemma appendTo_append: "appendTo (appendTo m xs) ys = appendTo m (xs @ ys)"
  by (rule ext) (auto simp: appendTo_def split: option.splits)

lemma appendTo_single:
  "m(StructOut x \<mapsto> (case m (StructOut x) of None \<Rightarrow> [] | Some l \<Rightarrow> l) @ [x]) = appendTo m [x]"
  by (rule ext) (auto simp: appendTo_def)

lemma collectAll_appendTo:
  "collectAllNestedStructsByStructOut a m = appendTo m (descendants a)"
proof (induction "size a" arbitrary: a m rule: less_induct)
  case less
  have all: "fold (\<lambda>nestedStruct m.
             collectAllNestedStructsByStructOut nestedStruct
               (m(StructOut nestedStruct \<mapsto>
                    (case m (StructOut nestedStruct) of None \<Rightarrow> [] | Some l \<Rightarrow> l) @ [nestedStruct])))
       xs m = appendTo m (concat (map allNodes xs))"
    if "set xs \<subseteq> set (NestedStructs a)" for xs m
    using that
  proof (induction xs arbitrary: m)
    case Nil
    then show ?case by simp
  next
    case (Cons x xs)
    then have "size x < size a" by (simp add: size_NestedStructs)
    from less[OF this] Cons show ?case
      by (simp add: appendTo_single appendTo_append allNodes_eq[of x])
  qed
  show ?case
    by (subst collectAllNestedStructsByStructOut.simps) (simp add: all descendants_def)
qed

lemma count_list_map: "count_list (map f xs) k = length (filter (\<lambda>x. f x = k) xs)"
  by (induction xs) auto

lemma duplicatedAtLevel_count:
  "duplicatedAtLevel n anc L
     = (1 < count_list (structOutsBelow (anc ! (length anc - L))) (StructOut n))"
  by (simp add: duplicatedAtLevel_def collectAll_appendTo appendTo_def structOutsBelow_def
      count_list_map Let_def)

lemma map_of_fold_update:
  "map_of (fold (\<lambda>level m. AList.update level (g level) m) ls m0) L
     = (if L \<in> set ls then Some (g L) else map_of m0 L)"
  by (induction ls arbitrary: m0) (auto simp: update_conv')

lemma map_of_levelFlags:
  "1 \<le> L \<Longrightarrow> L \<le> length A \<Longrightarrow> map_of (levelFlags n A) L = Some (duplicatedAtLevel n A L)"
  by (simp only: levelFlags_def map_of_fold_update) simp

lemma flags_of_update:
  assumes "map structOutsBelow A' = map structOutsBelow A"
    and "(n, chain) \<in> set (nodesWithAncestors (updateDuplicatesFromNodePerspective t A) A')"
    and "1 \<le> L" "L \<le> length chain"
  shows "map_of (DuplicatedRelativeToParents n) L
           = Some (1 < count_list (structOutsBelow (chain ! (length chain - L))) (StructOut n))"
  using assms
proof (induction "size t" arbitrary: t A A' rule: less_induct)
  case less
  let ?t' = "updateDuplicatesFromNodePerspective t A"
  let ?A = "A @ [t]"
  let ?A' = "A' @ [?t']"
  have eq: "map structOutsBelow ?A' = map structOutsBelow ?A"
    using less.prems(1) by (simp add: structOutsBelow_update)
  have len: "length A' = length A"
    using less.prems(1) by (metis length_map)
  from less.prems(2) obtain c where c: "c \<in> set (NestedStructs t)"
    and mem: "(n, chain) = (updateDuplicatesFromNodePerspective
                 (set_DuplicatedRelativeToParents c (levelFlags c ?A)) ?A, ?A')
              \<or> (n, chain) \<in> set (nodesWithAncestors (updateDuplicatesFromNodePerspective
                 (set_DuplicatedRelativeToParents c (levelFlags c ?A)) ?A) ?A')"
    by (subst (asm) nodesWithAncestors.simps) (auto simp: update_children)
  from mem show ?case
  proof
    assume "(n, chain) = (updateDuplicatesFromNodePerspective
                 (set_DuplicatedRelativeToParents c (levelFlags c ?A)) ?A, ?A')"
    then have n: "n = updateDuplicatesFromNodePerspective
                 (set_DuplicatedRelativeToParents c (levelFlags c ?A)) ?A" and ch: "chain = ?A'"
      by simp_all
    have L: "L \<le> length ?A" using less.prems(4) ch len by simp
    have i: "length ?A - L < length ?A" using less.prems(3) by simp
    have "structOutsBelow (?A' ! (length ?A - L)) = map structOutsBelow ?A' ! (length ?A - L)"
      using i len by (subst nth_map) simp_all
    also have "\<dots> = structOutsBelow (?A ! (length ?A - L))"
      unfolding eq using i by (subst nth_map) simp_all
    finally have s: "structOutsBelow (?A' ! (length ?A - L)) = structOutsBelow (?A ! (length ?A - L))" .
    have "map_of (DuplicatedRelativeToParents n) L = Some (duplicatedAtLevel c ?A L)"
      unfolding n using map_of_levelFlags[OF less.prems(3) L, of c] by simp
    also have "\<dots> = Some (1 < count_list (structOutsBelow (?A ! (length ?A - L))) (StructOut n))"
      by (simp only: duplicatedAtLevel_count) (simp add: n)
    finally show ?case
      using s ch len by simp
  next
    assume m: "(n, chain) \<in> set (nodesWithAncestors (updateDuplicatesFromNodePerspective
                 (set_DuplicatedRelativeToParents c (levelFlags c ?A)) ?A) ?A')"
    have "size (set_DuplicatedRelativeToParents c (levelFlags c ?A)) < size t"
      using c by (simp add: size_NestedStructs)
    from less.hyps[OF this eq m less.prems(3) less.prems(4)] show ?case .
  qed
qed

subsection \<open>Rules for evaluating the functions on given trees\<close>

text \<open>
  The recursive functions on trees are stated for an arbitrary node; these instances for a
  node given by its constructor let the simplifier run them on concrete trees.
\<close>

lemma allNodes_Node:
  "allNodes (NestedStructData a1 a2 a3 a4 a5 a6 a7 a8 a9 a10 a11 a12 a13 a14 a15 a16 a17 a18) =
     NestedStructData a1 a2 a3 a4 a5 a6 a7 a8 a9 a10 a11 a12 a13 a14 a15 a16 a17 a18 #
       concat (map allNodes a17)"
  by (subst allNodes.simps) simp

lemma nodesWithAncestors_Node:
  "nodesWithAncestors (NestedStructData a1 a2 a3 a4 a5 a6 a7 a8 a9 a10 a11 a12 a13 a14 a15 a16 a17 a18) ancestors =
     concat (map (\<lambda>c. (c, ancestors @ [NestedStructData a1 a2 a3 a4 a5 a6 a7 a8 a9 a10 a11 a12 a13 a14 a15 a16 a17 a18])
                      # nodesWithAncestors c (ancestors @ [NestedStructData a1 a2 a3 a4 a5 a6 a7 a8 a9 a10 a11 a12 a13 a14 a15 a16 a17 a18]))
               a17)"
  by (subst nodesWithAncestors.simps) simp

lemma collectAllNestedStructsByStructOut_Node:
  "collectAllNestedStructsByStructOut (NestedStructData a1 a2 a3 a4 a5 a6 a7 a8 a9 a10 a11 a12 a13 a14 a15 a16 a17 a18) structOutMap =
     fold (\<lambda>nestedStruct m.
             collectAllNestedStructsByStructOut nestedStruct
               (m(StructOut nestedStruct \<mapsto>
                    (case m (StructOut nestedStruct) of None \<Rightarrow> [] | Some l \<Rightarrow> l) @ [nestedStruct])))
       a17 structOutMap"
  by (subst collectAllNestedStructsByStructOut.simps) simp

lemma updateDuplicatesFromNodePerspective_Node:
  "updateDuplicatesFromNodePerspective (NestedStructData a1 a2 a3 a4 a5 a6 a7 a8 a9 a10 a11 a12 a13 a14 a15 a16 a17 a18) ancestors =
     NestedStructData a1 a2 a3 a4 a5 a6 a7 a8 a9 a10 a11 a12 a13 a14 a15 a16
       (map (\<lambda>nestedStruct.
               updateDuplicatesFromNodePerspective
                 (set_DuplicatedRelativeToParents nestedStruct
                   (fold (\<lambda>level m. AList.update level
                            (duplicatedAtLevel nestedStruct
                               (ancestors @ [NestedStructData a1 a2 a3 a4 a5 a6 a7 a8 a9 a10 a11 a12 a13 a14 a15 a16 a17 a18]) level) m)
                      [1 ..< Suc (length (ancestors @ [NestedStructData a1 a2 a3 a4 a5 a6 a7 a8 a9 a10 a11 a12 a13 a14 a15 a16 a17 a18]))]
                      (DuplicatedRelativeToParents nestedStruct)))
                 (ancestors @ [NestedStructData a1 a2 a3 a4 a5 a6 a7 a8 a9 a10 a11 a12 a13 a14 a15 a16 a17 a18]))
          a17)
       a18"
  by (subst updateDuplicatesFromNodePerspective.simps) (simp add: Let_def)

lemma validateCompositeFieldsExistInEntity_Nil:
  "validateCompositeFieldsExistInEntity [] query structs parentStructName = None"
  by (subst validateCompositeFieldsExistInEntity.simps) simp

lemma validateCompositeFieldsExistInEntity_Cons:
  "validateCompositeFieldsExistInEntity (nestedStruct # rest) query structs parentStructName =
     (case compositeFieldError structs parentStructName nestedStruct of
        Some err \<Rightarrow> Some err
      | None \<Rightarrow>
          (case validateCompositeFieldsExistInEntity (NestedStructs nestedStruct) query structs parentStructName of
             Some err \<Rightarrow> Some err
           | None \<Rightarrow> validateCompositeFieldsExistInEntity rest query structs parentStructName))"
  by (simp add: validateCompositeFieldsExistInEntity_walk firstError_append allNodes.simps[of nestedStruct]
      split: option.splits)

lemmas tree_eval = allNodes_Node nodesWithAncestors_Node collectAllNestedStructsByStructOut_Node
  updateDuplicatesFromNodePerspective_Node validateCompositeFieldsExistInEntity_Nil
  validateCompositeFieldsExistInEntity_Cons duplicatedAtLevel_def compositeFieldError_def
  validateCompositeFieldsAgainstEntity_def validateExtractedFields_def finishNestedStructData_def
  getStructByName_def fieldExistsInEntityFields_def formatAvailableFields_def

lemmas build_eval = newNestedStructData_def getQueryByName_def bindE_def GetIsComposite_def
  GetIsSlice_def GetIsPointer_def getNonNestedStructFields_def extractFields_def
  shouldReuseEntityStruct_def structExistsInSchema_def getFieldNameFromNestedConfig_def
  getFieldType_def IsCompositeStructAlreadyGenerated_def
  IsCompositeStructWillBeGeneratedInAnotherFile_def isRowFieldExistsInQuery_def determineKeyType_def
  structFieldsOf_def mkField_def


subsection \<open>The example of a shared fragment\<close>

text \<open>
  The registry \<open>ex_shared_registry\<close> is the one that the two passes build for the chain
  of fragments, and the tree of \<open>ListAuthors\<close> is built from it: the root, below it the
  composite reference \<open>BookComposite\<close> taken from the row's \<open>Book\<close>, below that the
  node \<open>Image\<close>, which the row does not have.
\<close>

lemma ex_shared_registry_built:
  "buildCompositeStructRegistry Map.empty [ex_AuthorGroup, ex_BookComposite] = Some (Inr ex_shared_registry)"
proof -
  let ?r1 = "ex_registry(''AuthorGroup'' \<mapsto>
        \<lparr>Config = ex_AuthorGroup, DirectNestedFields = [''Book''],
         NestedFieldToCompositeNameMap = [(''Book'', ''BookComposite'')],
         EntityFieldsToExclude = [''Book'', ''Image''], IsStructAlreadyGenerated = False\<rparr>)"
  have b: "resolveAllTreeCompositeFields ex_registry ''BookComposite'' = Some (Inr [''Image''])"
    by (subst resolveAllTreeCompositeFields.simps) (simp add: ex_registry_simps)
  have l: "ex_registry ''AuthorGroup'' = Some
       \<lparr>Config = ex_AuthorGroup, DirectNestedFields = [''Book''],
        NestedFieldToCompositeNameMap = [(''Book'', ''BookComposite'')],
        EntityFieldsToExclude = [], IsStructAlreadyGenerated = False\<rparr>"
    by (simp add: ex_registry_simps)
  have a: "resolveAllTreeCompositeFields ex_registry ''AuthorGroup'' = Some (Inr [''Book'', ''Image''])"
    by (subst resolveAllTreeCompositeFields.simps) (simp add: l b)
  have l1: "?r1 ''BookComposite'' = Some
       \<lparr>Config = ex_BookComposite, DirectNestedFields = [''Image''],
        NestedFieldToCompositeNameMap = [],
        EntityFieldsToExclude = [], IsStructAlreadyGenerated = False\<rparr>"
    by (simp add: ex_registry_simps)
  have b1: "resolveAllTreeCompositeFields ?r1 ''BookComposite'' = Some (Inr [''Image''])"
    by (subst resolveAllTreeCompositeFields.simps[of ?r1]) (simp add: ex_registry_simps)
  have na: "C_Name ex_AuthorGroup = ''AuthorGroup''" and nb: "C_Name ex_BookComposite = ''BookComposite''"
    by (simp_all add: ex_AuthorGroup_def ex_BookComposite_def)
  have lb: "ex_registry ''BookComposite'' = Some
       \<lparr>Config = ex_BookComposite, DirectNestedFields = [''Image''],
        NestedFieldToCompositeNameMap = [],
        EntityFieldsToExclude = [], IsStructAlreadyGenerated = False\<rparr>"
    by (simp add: ex_registry_simps)
  have ra: "resolveComposite ex_AuthorGroup ex_registry = Some (Inr ?r1)"
    by (simp add: resolveComposite_def na a l)
  have rb: "resolveComposite ex_BookComposite ?r1 = Some (Inr (?r1(''BookComposite'' \<mapsto>
        \<lparr>Config = ex_BookComposite, DirectNestedFields = [''Image''],
         NestedFieldToCompositeNameMap = [],
         EntityFieldsToExclude = [''Image''], IsStructAlreadyGenerated = False\<rparr>)))"
    by (simp add: resolveComposite_def nb b1 lb)
  have fin: "?r1(''BookComposite'' \<mapsto>
        \<lparr>Config = ex_BookComposite, DirectNestedFields = [''Image''],
         NestedFieldToCompositeNameMap = [],
         EntityFieldsToExclude = [''Image''], IsStructAlreadyGenerated = False\<rparr>) = ex_shared_registry"
    by (rule ext) (simp add: ex_shared_registry_def ex_registry_simps)
  show ?thesis
    unfolding buildCompositeStructRegistry_def ex_registry_def[symmetric]
    by (simp add: ra rb fin)
qed

lemma ex_shared_build:
  "\<exists>item reg' t c d.
      buildNestedData 3 ex_shared_builder ex_shared_registry ex_ListAuthors ex_shared_config
        = Some (Inr (item, reg')) \<and>
      RootStructData item = Some t \<and> RootStructName item = ''AuthorGroup'' \<and>
      NestedStructs t = [c] \<and> NestedStructs c = [d] \<and> NestedStructs d = [] \<and>
      StructOut t = ''AuthorGroup'' \<and>
      IsComposite c \<and> IsRowFieldExistsInQuery c \<and> StructIn c = ''Book'' \<and> StructOut c = ''BookComposite'' \<and>
      \<not> IsComposite d \<and> \<not> IsRowFieldExistsInQuery d \<and> StructIn d = ''Image'' \<and>
      RowFieldType d = ''entity.Image''"
  by (simp add: numeral_eq_Suc Let_def buildNestedData_def ex_shared_builder_def ex_builder_def ex_structs_def
      ex_shared_registry_def ex_shared_config_def ex_ListAuthors_def ex_options_def
      ex_AuthorGroup_def ex_BookComposite_def build_eval tree_eval)



text \<open>The same tree, built by the whole nesting step from the options of the request.\<close>

lemma ex_shared_run:
  "\<exists>nested reg' t c d.
      GenerateNested 4 id id Map.empty ex_shared_options [ex_ListAuthors] ex_structs
        = Some (Inr (nested, reg')) \<and>
      treesOfRun nested = [t] \<and>
      NestedStructs t = [c] \<and> NestedStructs c = [d] \<and> NestedStructs d = [] \<and>
      StructOut t = ''AuthorGroup'' \<and> StructOut c = ''BookComposite'' \<and> StructOut d = ''Image''"
proof -
  have p: "populateNestedConfigWithDefaultValues (O_Nested ex_shared_options) = O_Nested ex_shared_options"
    by (simp add: ex_shared_options_def ex_options_def populateNestedConfigWithDefaultValues_def
        populateNestedConfigItemWithDefaultValues_def ex_AuthorGroup_def ex_BookComposite_def
        ex_shared_config_def)
  have src: "getNestedSourceWithConfigs ex_shared_options [ex_ListAuthors]
      = [\<lparr>SourceFileName = ''authors.sql'', Configs = [ex_shared_config], NestedDataItems = []\<rparr>]"
    by (simp add: getNestedSourceWithConfigs_def ex_shared_options_def ex_options_def
        ex_shared_config_def ex_ListAuthors_def)
  have cs: "(case O_Nested ex_shared_options of None \<Rightarrow> [] | Some nc \<Rightarrow> Composites nc)
      = [ex_AuthorGroup, ex_BookComposite]"
    by (simp add: ex_shared_options_def ex_options_def)
  have o: "OutputModelsPackage ex_shared_options = ''entity''"
    "EmitJsonTags ex_shared_options = False" "EmitResultStructPointers ex_shared_options = False"
    by (simp_all add: ex_shared_options_def ex_options_def)
  have o1: "ex_shared_options\<lparr>O_Nested := populateNestedConfigWithDefaultValues (O_Nested ex_shared_options)\<rparr>
      = ex_shared_options"
    by (simp add: p)
  show ?thesis
    unfolding GenerateNested_def Let_def o1 populateNestedDataItems_def cs src ex_shared_registry_built
    by (simp add: numeral_eq_Suc Let_def buildNestedDataItems_def buildNestedDataItem_def
      buildNestedData_def o ex_structs_def treesOfRun_def treesOfItems_def
      ex_shared_registry_def ex_shared_config_def ex_ListAuthors_def
      ex_AuthorGroup_def ex_BookComposite_def build_eval tree_eval)
qed

subsection \<open>The example of two drifting fragments\<close>


subsection \<open>The example of a repeated output type\<close>

lemma ex_dup_build:
  "\<exists>tree reg' c1 c2 g.
      buildNestedStructData 3 ex_dup_builder ex_dup_registry ''ListAuthors'' ex_root_config None ex_dup_row
        = Some (Inr (tree, reg')) \<and>
      NestedStructs tree = [c1, c2] \<and> NestedStructs c1 = [] \<and> NestedStructs c2 = [g] \<and>
      NestedStructs g = [] \<and>
      StructOut c1 = ''BookComposite'' \<and> StructOut c2 = ''Publisher'' \<and> StructOut g = ''BookComposite''"
  by (simp add: numeral_eq_Suc ex_dup_builder_def ex_builder_def ex_dup_structs_def ex_dup_registry_def
      ex_dup_row_def ex_root_config_def ex_options_def build_eval tree_eval)

subsection \<open>The claims\<close>

text \<open>
  C1 (corrected).  The claim: building the template data of a query fails when a reused
  composite requires a nested entity that the query's row does not embed, because the
  compatibility check is run once on every built tree.  Counterexample: the tree of
  \<open>ListAuthors\<close> is built without error although the fragment \<open>BookComposite\<close> requires
  \<open>Image\<close>, which the row does not embed; the check, applied to that tree, would report
  \<open>GetImage\<close> as missing.  The call of the check in \<open>buildNestedData\<close> is commented out.
\<close>

theorem C1_build_succeeds_counterexample:
  "buildCompositeStructRegistry Map.empty [ex_AuthorGroup, ex_BookComposite] = Some (Inr ex_shared_registry) \<and>
   (\<exists>item reg' t.
      buildNestedData 3 ex_shared_builder ex_shared_registry ex_ListAuthors ex_shared_config
        = Some (Inr (item, reg')) \<and>
      RootStructData item = Some t \<and>
      validateNestedInterfaceCompatibility t ''AuthorGroup''
        = Some (InterfaceValidationFailed ''BookComposite'' ''AuthorGroup'' ''AuthorGroup''
                  [\<lparr>MethodName = ''GetImage'', ReturnType = ''entity.Image'', M_StructIn = ''Image''\<rparr>]))"
proof -
  from ex_shared_build obtain item reg' t c d where
    build: "buildNestedData 3 ex_shared_builder ex_shared_registry ex_ListAuthors ex_shared_config
        = Some (Inr (item, reg'))"
    and t: "RootStructData item = Some t"
    and kids: "NestedStructs t = [c]" "NestedStructs c = [d]" "NestedStructs d = []"
    and tout: "StructOut t = ''AuthorGroup''"
    and c: "IsComposite c" "IsRowFieldExistsInQuery c" "StructIn c = ''Book''" "StructOut c = ''BookComposite''"
    and d: "\<not> IsComposite d" "\<not> IsRowFieldExistsInQuery d" "StructIn d = ''Image''"
       "RowFieldType d = ''entity.Image''"
    by (elim exE conjE) (rule that, assumption+)
  have av: "MethodName ` set (collectRequiredMethods t) = {''GetBook''}"
    by (simp add: collectRequiredMethods_def collectMethodsRecursive.simps[of t]
        collectMethodsRecursive.simps[of c] kids c d Let_def)
  have rq: "collectCompositeRequiredMethods c
      = [\<lparr>MethodName = ''GetImage'', ReturnType = ''entity.Image'', M_StructIn = ''Image''\<rparr>]"
    by (simp add: collectCompositeRequiredMethods_def collectMethodsRecursive.simps[of c] kids c d Let_def)
  have ms: "findMissingMethods (collectRequiredMethods t) (collectCompositeRequiredMethods c)
      = [\<lparr>MethodName = ''GetImage'', ReturnType = ''entity.Image'', M_StructIn = ''Image''\<rparr>]"
    using av by (simp add: findMissingMethods_def rq)
  have "validateNestedInterfaceCompatibility t ''AuthorGroup''
        = Some (InterfaceValidationFailed ''BookComposite'' ''AuthorGroup'' ''AuthorGroup''
                  [\<lparr>MethodName = ''GetImage'', ReturnType = ''entity.Image'', M_StructIn = ''Image''\<rparr>])"
  proof -
    have "nodesWithAncestors t [] = [(c, [t]), (d, [t, c])]"
      by (simp add: nodesWithAncestors.simps[of t] nodesWithAncestors.simps[of c]
          nodesWithAncestors.simps[of d] kids)
    then show ?thesis
      by (simp add: validateNestedInterfaceCompatibility_def
          validateNestedCompositeInterfaces_walk[of _ _ _ "[]"] compositeInterfaceError_def ms c tout)
  qed
  with build t ex_shared_registry_built show ?thesis by blast
qed

text \<open>
  C1, as amended.  The accessor compatibility check \<open>validateNestedInterfaceCompatibility\<close>,
  applied to a tree from its root, examines the nodes strictly below the root and never the
  root itself.  It fails exactly when some composite reference strictly below the root has a
  nested entity below it that no node below the root takes from the query's row; the error
  then names the first such composite reference in depth-first order, its parent, and the
  missing accessors, which are the accessors of exactly those nested entities.
  \<open>buildNestedData\<close> does not run the check.
\<close>

theorem C1_interface_check_reports_missing:
  "validateNestedInterfaceCompatibility rootStruct rootStructName =
     (case find (\<lambda>(c, ancestors). lacksNestedEntity rootStruct c) (nodesWithAncestors rootStruct []) of
        None \<Rightarrow> None
      | Some (c, ancestors) \<Rightarrow>
          Some (InterfaceValidationFailed (StructOut c) rootStructName (StructOut (last ancestors))
                  (findMissingMethods (collectRequiredMethods rootStruct)
                     (collectCompositeRequiredMethods c)))) \<and>
   MethodName ` set (findMissingMethods (collectRequiredMethods rootStruct)
                       (collectCompositeRequiredMethods composite))
     = {''Get'' @ StructIn d | d. d \<in> set (descendants composite) \<and>
          \<not> (\<exists>a\<in>set (descendants rootStruct). IsRowFieldExistsInQuery a \<and> StructIn a = StructIn d)}"
proof
  let ?pm = "collectRequiredMethods rootStruct"
  let ?cie = "compositeInterfaceError ?pm rootStructName"
  let ?nodes = "nodesWithAncestors rootStruct []"
  have p: "(\<lambda>p. ?cie p \<noteq> None) = (\<lambda>(c, ancestors). lacksNestedEntity rootStruct c)"
    by (rule ext) (simp only: split_paired_all case_prod_conv compositeInterfaceError_lacks)
  have v: "validateNestedInterfaceCompatibility rootStruct rootStructName
      = (case find (\<lambda>(c, ancestors). lacksNestedEntity rootStruct c) ?nodes of
           None \<Rightarrow> None | Some q \<Rightarrow> ?cie q)"
    by (simp only: validateNestedInterfaceCompatibility_def
        validateNestedCompositeInterfaces_walk[of _ _ _ "[]"] firstError_find p)
  show "validateNestedInterfaceCompatibility rootStruct rootStructName =
     (case find (\<lambda>(c, ancestors). lacksNestedEntity rootStruct c) ?nodes of
        None \<Rightarrow> None
      | Some (c, ancestors) \<Rightarrow>
          Some (InterfaceValidationFailed (StructOut c) rootStructName (StructOut (last ancestors))
                  (findMissingMethods ?pm (collectCompositeRequiredMethods c))))"
  proof (cases "find (\<lambda>(c, ancestors). lacksNestedEntity rootStruct c) ?nodes")
    case None
    then show ?thesis by (simp only: v option.case)
  next
    case (Some q)
    obtain c' A' where q: "q = (c', A')" by (cases q)
    from Some have "lacksNestedEntity rootStruct c'"
      by (auto simp: find_Some_iff q)
    then have "?cie (c', A') \<noteq> None"
      by (simp only: compositeInterfaceError_lacks)
    then have "?cie (c', A') = Some (InterfaceValidationFailed (StructOut c') rootStructName (StructOut (last A'))
                  (findMissingMethods ?pm (collectCompositeRequiredMethods c')))"
      by (auto simp: compositeInterfaceError_def split: if_splits)
    then show ?thesis by (simp add: v Some q)
  qed
  show "MethodName ` set (findMissingMethods ?pm (collectCompositeRequiredMethods composite))
     = {''Get'' @ StructIn d | d. d \<in> set (descendants composite) \<and>
          \<not> (\<exists>a\<in>set (descendants rootStruct). IsRowFieldExistsInQuery a \<and> StructIn a = StructIn d)}"
    by (rule missing_names)
qed

theorem C1_interface_check_reports_missing_witness:
  "\<exists>item reg' t missing.
      buildNestedData 3 ex_shared_builder ex_shared_registry ex_ListAuthors ex_shared_config
        = Some (Inr (item, reg')) \<and>
      RootStructData item = Some t \<and>
      validateNestedInterfaceCompatibility t ''AuthorGroup''
        = Some (InterfaceValidationFailed ''BookComposite'' ''AuthorGroup'' ''AuthorGroup'' missing) \<and>
      MethodName ` set missing = {''GetImage''}"
proof -
  from ex_shared_build obtain item reg' t c d where
    build: "buildNestedData 3 ex_shared_builder ex_shared_registry ex_ListAuthors ex_shared_config
        = Some (Inr (item, reg'))"
    and t: "RootStructData item = Some t"
    and kids: "NestedStructs t = [c]" "NestedStructs c = [d]" "NestedStructs d = []"
    and tout: "StructOut t = ''AuthorGroup''"
    and c: "IsComposite c" "IsRowFieldExistsInQuery c" "StructIn c = ''Book''" "StructOut c = ''BookComposite''"
    and d: "\<not> IsComposite d" "\<not> IsRowFieldExistsInQuery d" "StructIn d = ''Image''"
    by (elim exE conjE) (rule that, assumption+)
  have nodes: "nodesWithAncestors t [] = [(c, [t]), (d, [t, c])]"
    by (simp add: nodesWithAncestors.simps[of t] nodesWithAncestors.simps[of c]
        nodesWithAncestors.simps[of d] kids)
  have dc: "descendants c = [d]" and dt: "descendants t = [c, d]"
    by (simp_all add: descendants_def allNodes.simps[of c] allNodes.simps[of d] kids)
  have l: "lacksNestedEntity t c"
    by (simp add: lacksNestedEntity_def dc dt c d)
  have f: "find (\<lambda>(c, ancestors). lacksNestedEntity t c) (nodesWithAncestors t []) = Some (c, [t])"
    by (simp add: nodes l)
  note th = C1_interface_check_reports_missing [of t "''AuthorGroup''" c]
  from th[THEN conjunct1]
  have v: "validateNestedInterfaceCompatibility t ''AuthorGroup''
                = Some (InterfaceValidationFailed ''BookComposite'' ''AuthorGroup'' ''AuthorGroup''
                          (findMissingMethods (collectRequiredMethods t)
                             (collectCompositeRequiredMethods c)))"
    by (simp add: f c tout)
  from th[THEN conjunct2]
  have g: "MethodName ` set (findMissingMethods (collectRequiredMethods t)
                             (collectCompositeRequiredMethods c)) = {''GetImage''}"
    by (simp add: dc dt c d)
  show ?thesis
    by (rule exI[of _ item], rule exI[of _ reg'], rule exI[of _ t],
        rule exI[of _ "findMissingMethods (collectRequiredMethods t) (collectCompositeRequiredMethods c)"])
       (simp only: build t v g simp_thms)
qed

text \<open>
  C2 (corrected).  The claim: on a registry whose reference graph has a cycle, resolving a
  fragment on the cycle terminates and fails with an error.  Counterexample: the fragment
  \<open>AuthorComposite\<close> references itself; resolving it does not return, and neither does the
  construction of the registry.  The code keeps no record of the fragments on the current path.
\<close>

theorem C2_cycle_counterexample:
  "resolveAllTreeCompositeFields (registerComposite Map.empty ex_cyclic_composite) ''AuthorComposite'' = None \<and>
   buildCompositeStructRegistry Map.empty [ex_cyclic_composite] = None"
proof -
  have a: "resolveAllTreeCompositeFields (registerComposite Map.empty ex_cyclic_composite) ''AuthorComposite'' = None"
    using cyc_aux[of "registerComposite Map.empty ex_cyclic_composite" "''AuthorComposite''"]
    by (cases "resolveAllTreeCompositeFields (registerComposite Map.empty ex_cyclic_composite) ''AuthorComposite''") auto
  have n: "C_Name ex_cyclic_composite = ''AuthorComposite''" by (simp add: ex_cyclic_composite_def)
  show ?thesis using a
    by (simp add: buildCompositeStructRegistry_def resolveComposite_def n)
qed


text \<open>
  C2, as amended.  When the reference graph of the registry is acyclic, resolving the
  transitive excluded-field set of any fragment name terminates (with the field list, or with
  the not-found error of an unregistered fragment).
\<close>

theorem C2_acyclic_terminates:
  assumes "wf (references reg)"
  shows "\<exists>r. resolveAllTreeCompositeFields reg name = Some r"
  using assms
proof (induction name rule: wf_induct_rule)
  case (less name)
  show ?case
  proof (cases "reg name")
    case None
    then show ?thesis by (subst resolveAllTreeCompositeFields.simps) simp
  next
    case (Some info)
    have "\<exists>r. forEachM (map snd (NestedFieldToCompositeNameMap info))
            (\<lambda>nestedCompositeName entityFields.
               Option.bind (resolveAllTreeCompositeFields reg nestedCompositeName)
                 (\<lambda>r. case r of
                         Inl err \<Rightarrow> Some (Inl err)
                       | Inr allNestedCompositeFields \<Rightarrow>
                           Some (Inr (entityFields @ allNestedCompositeFields))))
            (DirectNestedFields info) = Some r"
    proof (rule forEachM_total)
      fix x s assume "x \<in> set (map snd (NestedFieldToCompositeNameMap info))"
      then have "(x, name) \<in> references reg" using Some by (auto simp: references_def)
      from less.IH[OF this] obtain r where "resolveAllTreeCompositeFields reg x = Some r" by auto
      then show "\<exists>r. Option.bind (resolveAllTreeCompositeFields reg x)
                 (\<lambda>r. case r of
                         Inl err \<Rightarrow> Some (Inl err)
                       | Inr allNestedCompositeFields \<Rightarrow>
                           Some (Inr (s @ allNestedCompositeFields))) = Some r"
        by (cases r) auto
    qed
    with Some show ?thesis by (subst resolveAllTreeCompositeFields.simps) simp
  qed
qed

theorem C2_acyclic_terminates_witness:
  "wf (references ex_registry) \<and>
   resolveAllTreeCompositeFields ex_registry ''AuthorGroup'' = Some (Inr [''Book'', ''Image''])"
proof -
  from C2_acyclic_terminates [OF wf_ex_registry, of "''AuthorGroup''"]
  obtain r where r: "resolveAllTreeCompositeFields ex_registry ''AuthorGroup'' = Some r" ..
  have b: "resolveAllTreeCompositeFields ex_registry ''BookComposite'' = Some (Inr [''Image''])"
    by (subst resolveAllTreeCompositeFields.simps) (simp add: ex_registry_simps)
  have l: "ex_registry ''AuthorGroup'' = Some
       \<lparr>Config = ex_AuthorGroup, DirectNestedFields = [''Book''],
        NestedFieldToCompositeNameMap = [(''Book'', ''BookComposite'')],
        EntityFieldsToExclude = [], IsStructAlreadyGenerated = False\<rparr>"
    by (simp add: ex_registry_simps)
  have "resolveAllTreeCompositeFields ex_registry ''AuthorGroup'' = Some (Inr [''Book'', ''Image''])"
    by (subst resolveAllTreeCompositeFields.simps) (simp add: l b)
  with r wf_ex_registry show ?thesis by simp
qed


text \<open>
  C3 (the code departs from the claim).  The claim: a node whose \<open>is_composite\<close> is left
  unspecified is read as non-composite everywhere.  In the code the accessor
  \<open>GetIsComposite\<close> reads \<open>nil\<close> as \<open>true\<close>.  The defaults are filled in only for the nodes
  directly below a query or a composite, so the root node of a query that does not state
  \<open>composite\<close> reaches the builder with \<open>nil\<close>: it is taken for a composite reference, its
  fragment is looked up in the registry, and with no such fragment the generator dereferences
  a nil pointer.
\<close>

theorem C3_nil_composite_reads_true:
  "GetIsComposite (NestedGroupConfig groupBy fieldOut structIn structOut isSlice isPointer None grp) \<and>
   GenerateNested 5 id id Map.empty (ex_options \<lparr>Composites = [], Queries = [ex_plain_config]\<rparr>)
       [ex_ListAuthors] ex_structs
     = Some (Inl (FailedToGenerateNestedFunction ''ListAuthors'' NilPointerDereference))"
  by (simp add: GenerateNested_def ex_options_def ex_plain_config_def ex_ListAuthors_def
      populateNestedConfigWithDefaultValues_def populateNestedConfigItemWithDefaultValues_def
      getNestedSourceWithConfigs_def populateNestedDataItems_def buildCompositeStructRegistry_def
      buildNestedDataItems_def buildNestedDataItem_def buildNestedData_def
      newNestedStructData_def getQueryByName_def bindE_def GetIsComposite_def numeral_eq_Suc)

text \<open>
  C4 (corrected).  The claim: a query configuration that names a query not in the catalog
  fails the whole request.  Counterexample: the request with the one configuration
  \<open>ex_unknown_config\<close> succeeds, with no nested output and no error, both at
  \<open>buildNestedDataItems\<close> and for the whole nesting step of \<open>Generate\<close>.
\<close>

theorem C4_unknown_query_counterexample:
  "buildNestedDataItems 5 ex_builder Map.empty [ex_unknown_config] = Some (Inr ([], Map.empty)) \<and>
   GenerateNested 5 id id Map.empty (ex_options \<lparr>Composites = [], Queries = [ex_unknown_config]\<rparr>)
       [ex_ListAuthors] ex_structs
     = Some (Inr ([], Map.empty))"
  by (simp add: GenerateNested_def ex_options_def ex_unknown_config_def ex_ListAuthors_def
      ex_builder_def populateNestedConfigWithDefaultValues_def
      getNestedSourceWithConfigs_def populateNestedDataItems_def buildCompositeStructRegistry_def
      buildNestedDataItems_def buildNestedDataItem_def)

text \<open>
  C4, as amended.  A query configuration whose query matches no method name and no source
  name of the catalog is skipped: the items of a source file are those of its other
  configurations, built from the same registry, and the grouping by source file drops the
  configuration.  No error is raised for it.
\<close>

theorem C4_unknown_query_is_skipped:
  assumes "find (\<lambda>q. Q_MethodName q = QC_Query config \<or> Q_SourceName q = QC_Query config) queries = None"
  shows "buildNestedDataItems depth (b\<lparr>B_queries := queries\<rparr>) reg (before @ config # after)
           = buildNestedDataItems depth (b\<lparr>B_queries := queries\<rparr>) reg (before @ after) \<and>
         getNestedSourceWithConfigs
           (options\<lparr>O_Nested := Some \<lparr>Composites = cs, Queries = before @ config # after\<rparr>\<rparr>) queries
         = getNestedSourceWithConfigs
           (options\<lparr>O_Nested := Some \<lparr>Composites = cs, Queries = before @ after\<rparr>\<rparr>) queries"
proof
  have "buildNestedDataItem depth (b\<lparr>B_queries := queries\<rparr>) config = (\<lambda>st. Some (Inr st))"
    using assms by (intro buildNestedDataItem_unknown) simp
  then show "buildNestedDataItems depth (b\<lparr>B_queries := queries\<rparr>) reg (before @ config # after)
           = buildNestedDataItems depth (b\<lparr>B_queries := queries\<rparr>) reg (before @ after)"
    by (simp add: buildNestedDataItems_def forEachM_skip)
  show "getNestedSourceWithConfigs
           (options\<lparr>O_Nested := Some \<lparr>Composites = cs, Queries = before @ config # after\<rparr>\<rparr>) queries
         = getNestedSourceWithConfigs
           (options\<lparr>O_Nested := Some \<lparr>Composites = cs, Queries = before @ after\<rparr>\<rparr>) queries"
    using assms by (simp add: getNestedSourceWithConfigs_def)
qed

theorem C4_unknown_query_is_skipped_witness:
  "find (\<lambda>q. Q_MethodName q = QC_Query ex_unknown_config \<or> Q_SourceName q = QC_Query ex_unknown_config)
     [ex_ListAuthors] = None \<and>
   buildNestedDataItems 5 (ex_builder\<lparr>B_queries := [ex_ListAuthors]\<rparr>) Map.empty
       ([] @ ex_unknown_config # [])
     = buildNestedDataItems 5 (ex_builder\<lparr>B_queries := [ex_ListAuthors]\<rparr>) Map.empty ([] @ []) \<and>
   getNestedSourceWithConfigs
       (ex_options \<lparr>Composites = [], Queries = []\<rparr>
          \<lparr>O_Nested := Some \<lparr>Composites = [], Queries = [] @ ex_unknown_config # []\<rparr>\<rparr>)
       [ex_ListAuthors] = []"
proof -
  have h: "find (\<lambda>q. Q_MethodName q = QC_Query ex_unknown_config \<or> Q_SourceName q = QC_Query ex_unknown_config)
     [ex_ListAuthors] = None"
    by (simp add: ex_unknown_config_def ex_ListAuthors_def)
  have "getNestedSourceWithConfigs
       (ex_options \<lparr>Composites = [], Queries = []\<rparr>
          \<lparr>O_Nested := Some \<lparr>Composites = [], Queries = [] @ []\<rparr>\<rparr>)
       [ex_ListAuthors] = []"
    by (simp add: getNestedSourceWithConfigs_def)
  with h C4_unknown_query_is_skipped [OF h, where depth = 5 and b = ex_builder and reg = Map.empty
      and before = "[]" and after = "[]" and cs = "[]"
      and options = "ex_options \<lparr>Composites = [], Queries = []\<rparr>"]
  show ?thesis by simp
qed

text \<open>
  C7.  In every built tree, for every node below the root and every ancestor level \<open>L\<close>
  (1 is the parent, the number of ancestors is the root), the node's flag for \<open>L\<close> is set,
  and it is true exactly when the node's \<open>StructOut\<close> occurs more than once among the
  nodes strictly below the ancestor at level \<open>L\<close>.  The chain of a node lists its ancestors
  from the root to the parent, so the ancestor at level \<open>L\<close> is the \<open>L\<close>-th from the end.
  This holds for the tree that \<open>buildNestedStructData\<close> returns and for every tree of
  a run of the nesting step.
\<close>

theorem C7_duplicate_flags:
  "(buildNestedStructData depth b reg queryName config parent structFields = Some (Inr (tree, reg1)) \<longrightarrow>
      (\<forall>(n, chain)\<in>set (nodesWithAncestors tree []). \<forall>L. 1 \<le> L \<and> L \<le> length chain \<longrightarrow>
          map_of (DuplicatedRelativeToParents n) L
            = Some (1 < count_list (structOutsBelow (chain ! (length chain - L))) (StructOut n)))) \<and>
   (GenerateNested depth pluralize singularize reg options queries structs = Some (Inr (nested, reg2)) \<longrightarrow>
      (\<forall>t\<in>set (treesOfRun nested).
         \<forall>(n, chain)\<in>set (nodesWithAncestors t []). \<forall>L. 1 \<le> L \<and> L \<le> length chain \<longrightarrow>
          map_of (DuplicatedRelativeToParents n) L
            = Some (1 < count_list (structOutsBelow (chain ! (length chain - L))) (StructOut n))))"
proof -
  have tree: "\<forall>(n, chain)\<in>set (nodesWithAncestors t []). \<forall>L. 1 \<le> L \<and> L \<le> length chain \<longrightarrow>
          map_of (DuplicatedRelativeToParents n) L
            = Some (1 < count_list (structOutsBelow (chain ! (length chain - L))) (StructOut n))"
    if "buildNestedStructData depth b reg queryName config parent structFields = Some (Inr (t, reg1))"
    for depth b reg queryName config parent structFields t reg1
  proof (cases depth)
    case 0
    with that show ?thesis by simp
  next
    case (Suc k)
    with that obtain result nestedConfigs reg0 query nestedStructs reg2 where
      fin: "finishNestedStructData b reg2 queryName config query result nestedStructs = Inr t"
      by (auto split: sum.splits option.splits prod.splits)
    have t: "t = updateDuplicatesFromNodePerspective (set_NestedStructs result nestedStructs) []"
      by (rule finishNestedStructData_Inr[OF fin])
    show ?thesis
      unfolding t using flags_of_update[of "[]" "[]"] by auto
  qed
  show ?thesis
  proof (intro conjI impI)
    assume "buildNestedStructData depth b reg queryName config parent structFields = Some (Inr (tree, reg1))"
    from tree[OF this] show "\<forall>(n, chain)\<in>set (nodesWithAncestors tree []). \<forall>L. 1 \<le> L \<and> L \<le> length chain \<longrightarrow>
          map_of (DuplicatedRelativeToParents n) L
            = Some (1 < count_list (structOutsBelow (chain ! (length chain - L))) (StructOut n))" .
  next
    assume run: "GenerateNested depth pluralize singularize reg options queries structs = Some (Inr (nested, reg2))"
    show "\<forall>t\<in>set (treesOfRun nested).
         \<forall>(n, chain)\<in>set (nodesWithAncestors t []). \<forall>L. 1 \<le> L \<and> L \<le> length chain \<longrightarrow>
          map_of (DuplicatedRelativeToParents n) L
            = Some (1 < count_list (structOutsBelow (chain ! (length chain - L))) (StructOut n))"
      by (rule GenerateNested_trees[OF _ run]) (rule tree)
  qed
qed

theorem C7_duplicate_flags_witness:
  "(\<exists>tree reg' c1 c2 g.
      buildNestedStructData 3 ex_dup_builder ex_dup_registry ''ListAuthors'' ex_root_config None ex_dup_row
        = Some (Inr (tree, reg')) \<and>
      NestedStructs tree = [c1, c2] \<and> NestedStructs c2 = [g] \<and>
      StructOut c1 = ''BookComposite'' \<and> StructOut c2 = ''Publisher'' \<and> StructOut g = ''BookComposite'' \<and>
      map_of (DuplicatedRelativeToParents c1) 1 = Some True \<and>
      map_of (DuplicatedRelativeToParents c2) 1 = Some False \<and>
      map_of (DuplicatedRelativeToParents g) 1 = Some False \<and>
      map_of (DuplicatedRelativeToParents g) 2 = Some True) \<and>
   (\<exists>nested reg' t c d.
      GenerateNested 4 id id Map.empty ex_shared_options [ex_ListAuthors] ex_structs
        = Some (Inr (nested, reg')) \<and>
      treesOfRun nested = [t] \<and> NestedStructs t = [c] \<and> NestedStructs c = [d] \<and>
      map_of (DuplicatedRelativeToParents c) 1 = Some False \<and>
      map_of (DuplicatedRelativeToParents d) 1 = Some False \<and>
      map_of (DuplicatedRelativeToParents d) 2 = Some False)"
proof
  from ex_dup_build obtain tree reg' c1 c2 g where
    build: "buildNestedStructData 3 ex_dup_builder ex_dup_registry ''ListAuthors'' ex_root_config None ex_dup_row
        = Some (Inr (tree, reg'))"
    and kids: "NestedStructs tree = [c1, c2]" "NestedStructs c1 = []" "NestedStructs c2 = [g]"
      "NestedStructs g = []"
    and so: "StructOut c1 = ''BookComposite''" "StructOut c2 = ''Publisher''" "StructOut g = ''BookComposite''"
    by (elim exE conjE) (rule that, assumption+)
  have nodes: "nodesWithAncestors tree [] = [(c1, [tree]), (c2, [tree]), (g, [tree, c2])]"
    by (simp add: nodesWithAncestors.simps[of tree] nodesWithAncestors.simps[of c1]
        nodesWithAncestors.simps[of c2] nodesWithAncestors.simps[of g] kids)
  have below: "structOutsBelow tree = [''BookComposite'', ''Publisher'', ''BookComposite'']"
    "structOutsBelow c2 = [''BookComposite'']"
    by (simp_all add: structOutsBelow_def descendants_def allNodes.simps[of c1] allNodes.simps[of c2]
        allNodes.simps[of g] kids so)
  note th = C7_duplicate_flags [where depth = 3 and b = ex_dup_builder and reg = ex_dup_registry
      and queryName = "''ListAuthors''" and config = ex_root_config and parent = None
      and structFields = ex_dup_row and tree = tree and ?reg1.0 = reg', THEN conjunct1, THEN mp, OF build]
  have f1: "map_of (DuplicatedRelativeToParents c1) 1 = Some True"
    using th[unfolded nodes, THEN bspec, of "(c1, [tree])"] by (simp add: below so)
  have f2: "map_of (DuplicatedRelativeToParents c2) 1 = Some False"
    using th[unfolded nodes, THEN bspec, of "(c2, [tree])"] by (simp add: below so)
  have f3: "map_of (DuplicatedRelativeToParents g) 1 = Some False"
    using th[unfolded nodes, THEN bspec, of "(g, [tree, c2])", simplified, THEN spec, of 1]
    by (simp add: below so)
  have f4: "map_of (DuplicatedRelativeToParents g) 2 = Some True"
    using th[unfolded nodes, THEN bspec, of "(g, [tree, c2])", simplified, THEN spec, of 2]
    by (simp add: below so)
  show "\<exists>tree reg' c1 c2 g.
      buildNestedStructData 3 ex_dup_builder ex_dup_registry ''ListAuthors'' ex_root_config None ex_dup_row
        = Some (Inr (tree, reg')) \<and>
      NestedStructs tree = [c1, c2] \<and> NestedStructs c2 = [g] \<and>
      StructOut c1 = ''BookComposite'' \<and> StructOut c2 = ''Publisher'' \<and> StructOut g = ''BookComposite'' \<and>
      map_of (DuplicatedRelativeToParents c1) 1 = Some True \<and>
      map_of (DuplicatedRelativeToParents c2) 1 = Some False \<and>
      map_of (DuplicatedRelativeToParents g) 1 = Some False \<and>
      map_of (DuplicatedRelativeToParents g) 2 = Some True"
    by (rule exI[of _ tree], rule exI[of _ reg'], rule exI[of _ c1], rule exI[of _ c2], rule exI[of _ g])
       (simp only: build kids so f1 f2 f3 f4 simp_thms)
next
  from ex_shared_run obtain nested reg' t c d where
    run: "GenerateNested 4 id id Map.empty ex_shared_options [ex_ListAuthors] ex_structs
        = Some (Inr (nested, reg'))"
    and trees: "treesOfRun nested = [t]"
    and kids: "NestedStructs t = [c]" "NestedStructs c = [d]" "NestedStructs d = []"
    and so: "StructOut t = ''AuthorGroup''" "StructOut c = ''BookComposite''" "StructOut d = ''Image''"
    by (elim exE conjE) (rule that, assumption+)
  have nodes: "nodesWithAncestors t [] = [(c, [t]), (d, [t, c])]"
    by (simp add: nodesWithAncestors.simps[of t] nodesWithAncestors.simps[of c]
        nodesWithAncestors.simps[of d] kids)
  have below: "structOutsBelow t = [''BookComposite'', ''Image'']" "structOutsBelow c = [''Image'']"
    by (simp_all add: structOutsBelow_def descendants_def allNodes.simps[of c] allNodes.simps[of d] kids so)
  note th = C7_duplicate_flags [where depth = 4 and pluralize = id and singularize = id
      and reg = Map.empty and options = ex_shared_options and queries = "[ex_ListAuthors]"
      and structs = ex_structs and nested = nested and ?reg2.0 = reg',
      THEN conjunct2, THEN mp, OF run, unfolded trees, THEN bspec, of t, simplified, unfolded nodes]
  have f1: "map_of (DuplicatedRelativeToParents c) 1 = Some False"
    using th[THEN bspec, of "(c, [t])"] by (simp add: below so)
  have f2: "map_of (DuplicatedRelativeToParents d) 1 = Some False"
    using th[THEN bspec, of "(d, [t, c])", simplified, THEN spec, of 1] by (simp add: below so)
  have f3: "map_of (DuplicatedRelativeToParents d) 2 = Some False"
    using th[THEN bspec, of "(d, [t, c])", simplified, THEN spec, of 2] by (simp add: below so)
  show "\<exists>nested reg' t c d.
      GenerateNested 4 id id Map.empty ex_shared_options [ex_ListAuthors] ex_structs
        = Some (Inr (nested, reg')) \<and>
      treesOfRun nested = [t] \<and> NestedStructs t = [c] \<and> NestedStructs c = [d] \<and>
      map_of (DuplicatedRelativeToParents c) 1 = Some False \<and>
      map_of (DuplicatedRelativeToParents d) 1 = Some False \<and>
      map_of (DuplicatedRelativeToParents d) 2 = Some False"
    by (rule exI[of _ nested], rule exI[of _ reg'], rule exI[of _ t], rule exI[of _ c], rule exI[of _ d])
       (simp only: run trees kids f1 f2 f3 simp_thms)
qed




text \<open>
  C9 (corrected).  The claim: \<open>ToPascalCaseWithInitialisms\<close> is idempotent on every
  identifier.  Counterexample: \<open>id_url\<close> becomes \<open>IDURL\<close>, which has no lower-to-upper
  boundary left, is split into the single word \<open>idurl\<close> and becomes \<open>Idurl\<close>.
\<close>

theorem C9_idempotence_counterexample:
  "ToPascalCaseWithInitialisms ''id_url'' = ''IDURL'' \<and>
   ToPascalCaseWithInitialisms (ToPascalCaseWithInitialisms ''id_url'') = ''Idurl''"
proof -
  have a: "ToPascalCaseWithInitialisms ''id_url'' = ''IDURL''"
    by (simp add: ToPascalCaseWithInitialisms_def pascalPart_def ToUpper_def ToLower_def
        toUpperByte_def toLowerByte_def asciiLower_def asciiUpper_def commonInitialisms_def)
  have b: "ToPascalCaseWithInitialisms ''IDURL'' = ''Idurl''"
    by (simp add: ToPascalCaseWithInitialisms_def PascalToSnakeCase_def pascalPart_def ToUpper_def
        ToLower_def toUpperByte_def toLowerByte_def asciiLower_def asciiUpper_def
        commonInitialisms_def isUpperAZ_def)
  show ?thesis by (simp only: a b)
qed

text \<open>
  C10.  Every node of every built tree has the lookup-map key type \<open>pgtype.UUID\<close>,
  whatever group-by field is configured for it and whatever the catalog says about that field:
  for the tree that \<open>buildNestedStructData\<close> returns (for a root or for a nested
  node), and for every tree of every source file of a run of the nesting step.
\<close>

theorem C10_key_type_constant:
  "(buildNestedStructData depth b reg queryName config parent structFields = Some (Inr (tree, reg1)) \<longrightarrow>
      (\<forall>n\<in>set (allNodes tree). KeyType n = ''pgtype.UUID'')) \<and>
   (GenerateNested depth pluralize singularize reg options queries structs = Some (Inr (nested, reg2)) \<longrightarrow>
      (\<forall>t\<in>set (treesOfRun nested). \<forall>n\<in>set (allNodes t). KeyType n = ''pgtype.UUID''))"
proof (intro conjI impI)
  assume "buildNestedStructData depth b reg queryName config parent structFields = Some (Inr (tree, reg1))"
  with build_KeyType(1) show "\<forall>n\<in>set (allNodes tree). KeyType n = ''pgtype.UUID''" by blast
next
  assume run: "GenerateNested depth pluralize singularize reg options queries structs = Some (Inr (nested, reg2))"
  show "\<forall>t\<in>set (treesOfRun nested). \<forall>n\<in>set (allNodes t). KeyType n = ''pgtype.UUID''"
  proof (rule GenerateNested_trees[OF _ run])
    fix depth b reg queryName config structFields t reg1
    assume "buildNestedStructData depth b reg queryName config None structFields = Some (Inr (t, reg1))"
    with build_KeyType(1) show "\<forall>n\<in>set (allNodes t). KeyType n = ''pgtype.UUID''" by blast
  qed
qed

theorem C10_key_type_constant_witness:
  "\<exists>nested reg' t item reg1 t1.
      GenerateNested 4 id id Map.empty ex_shared_options [ex_ListAuthors] ex_structs
        = Some (Inr (nested, reg')) \<and>
      treesOfRun nested = [t] \<and> map KeyType (allNodes t) = [''pgtype.UUID'', ''pgtype.UUID'', ''pgtype.UUID''] \<and>
      buildNestedData 3 ex_shared_builder ex_shared_registry ex_ListAuthors ex_shared_config
        = Some (Inr (item, reg1)) \<and>
      RootStructData item = Some t1 \<and>
      map KeyType (allNodes t1) = [''pgtype.UUID'', ''pgtype.UUID'', ''pgtype.UUID'']"
proof -
  from ex_shared_run obtain nested reg' t c d where
    run: "GenerateNested 4 id id Map.empty ex_shared_options [ex_ListAuthors] ex_structs
        = Some (Inr (nested, reg'))"
    and trees: "treesOfRun nested = [t]"
    and kids: "NestedStructs t = [c]" "NestedStructs c = [d]" "NestedStructs d = []"
    by (elim exE conjE) (rule that, assumption+)
  have nodes: "allNodes t = [t, c, d]"
    by (simp add: allNodes.simps[of t] allNodes.simps[of c] allNodes.simps[of d] kids)
  from ex_shared_build obtain item reg1 t1 c1 d1 where
    build: "buildNestedData 3 ex_shared_builder ex_shared_registry ex_ListAuthors ex_shared_config
        = Some (Inr (item, reg1))"
    and t1: "RootStructData item = Some t1"
    and kids1: "NestedStructs t1 = [c1]" "NestedStructs c1 = [d1]" "NestedStructs d1 = []"
    by (elim exE conjE) (rule that, assumption+)
  have nodes1: "allNodes t1 = [t1, c1, d1]"
    by (simp add: allNodes.simps[of t1] allNodes.simps[of c1] allNodes.simps[of d1] kids1)
  from buildNestedData_tree[OF build] t1 obtain queryName rootConfig structFields where
    tree: "buildNestedStructData 3 ex_shared_builder ex_shared_registry queryName rootConfig None structFields
             = Some (Inr (t1, reg1))"
    by auto
  note th = C10_key_type_constant [where depth = 4 and pluralize = id and singularize = id
      and reg = Map.empty and options = ex_shared_options and queries = "[ex_ListAuthors]"
      and structs = ex_structs and nested = nested and ?reg2.0 = reg']
  note th1 = C10_key_type_constant [where depth = 3 and b = ex_shared_builder and reg = ex_shared_registry
      and queryName = queryName and config = rootConfig and parent = None and structFields = structFields
      and tree = t1 and ?reg1.0 = reg1]
  from th[THEN conjunct2, THEN mp, OF run] trees nodes
  have k: "map KeyType (allNodes t) = [''pgtype.UUID'', ''pgtype.UUID'', ''pgtype.UUID'']"
    by simp
  from th1[THEN conjunct1, THEN mp, OF tree] nodes1
  have k1: "map KeyType (allNodes t1) = [''pgtype.UUID'', ''pgtype.UUID'', ''pgtype.UUID'']"
    by simp
  show ?thesis
    by (rule exI[of _ nested], rule exI[of _ reg'], rule exI[of _ t], rule exI[of _ item],
        rule exI[of _ reg1], rule exI[of _ t1])
       (simp only: run trees k build t1 k1 simp_thms)
qed

end
